theory Spec2Isabelle
  imports Main "HOL-Library.Log_Nat"
begin

section \<open>Python numbers\<close>

text \<open>
  The calculator computes with Python \<open>float\<close>s (IEEE 754 binary64, round to nearest,
  ties to even) and Python \<open>int\<close>s (unbounded). A float is modelled by the rational it
  denotes, or one of the three special values. The two zeros of binary64 are one value
  of this type: they are equal in every comparison and in every arithmetic result of this
  program (Python raises on a division by either zero). Only the text printed for a zero
  tells them apart; where the program prints a float, the result of \<open>round(x, 1)\<close>, the
  sign bit is carried beside the value (see \<open>py_round1\<close>).
\<close>

datatype pyfloat = Fin rat | PInf | NInf | NaN

datatype py_error = ValidationError | ZeroDivisionError | OverflowError | ValueError

definition rbind :: "py_error + 'a \<Rightarrow> ('a \<Rightarrow> py_error + 'b) \<Rightarrow> py_error + 'b" where
  "rbind m f = (case m of Inl e \<Rightarrow> Inl e | Inr v \<Rightarrow> f v)"

subsection \<open>Rounding a rational to binary64\<close>

text \<open>\<open>ilog2 q\<close> is the binary exponent of a positive rational: \<open>2 powi ilog2 q \<le> q < 2 powi (ilog2 q + 1)\<close>.\<close>

definition ilog2 :: "rat \<Rightarrow> int" where
  "ilog2 q = (if 1 \<le> q then bitlen \<lfloor>q\<rfloor> - 1
     else (let l = bitlen \<lfloor>1 / q\<rfloor> in if q * 2 ^ nat (l - 1) = 1 then 1 - l else - l))"

text \<open>Rounding to the nearest integer, a tie going to the even neighbour.\<close>

definition rhe :: "rat \<Rightarrow> int" where
  "rhe x = (let f = \<lfloor>x\<rfloor>; d = x - of_int f in
     if d < 1 / 2 then f else if 1 / 2 < d then f + 1 else if even f then f else f + 1)"

text \<open>
  The spacing of binary64 around \<open>q\<close>: 52 fraction bits below the leading bit, and never
  finer than \<open>2 powi - 1074\<close> (the subnormal range starts below \<open>2 powi - 1022\<close>).
\<close>

definition ulp :: "rat \<Rightarrow> rat" where
  "ulp q = 2 powi (max (ilog2 \<bar>q\<bar>) (- 1022) - 52)"

text \<open>\<open>rnd_exact q\<close> is the multiple of \<open>ulp q\<close> nearest to \<open>q\<close>, before the range check.\<close>

definition rnd_exact :: "rat \<Rightarrow> rat" where
  "rnd_exact q = of_int (rhe (q / ulp q)) * ulp q"

text \<open>The result of an operation whose exact value is \<open>q\<close>: it overflows to an infinity
  when the rounded magnitude reaches \<open>2 powi 1024\<close>.\<close>

definition rnd :: "rat \<Rightarrow> pyfloat" where
  "rnd q = (if 2 powi 1024 \<le> \<bar>rnd_exact q\<bar> then (if 0 < q then PInf else NInf)
     else Fin (rnd_exact q))"

text \<open>A well-formed float: a special value, or a rational that binary64 represents.\<close>

definition is_float :: "pyfloat \<Rightarrow> bool" where
  "is_float x = (case x of Fin q \<Rightarrow> rnd q = Fin q | _ \<Rightarrow> True)"

text \<open>A decimal literal of the source text denotes the nearest float.\<close>

definition lit :: "rat \<Rightarrow> pyfloat" where
  "lit q = rnd q"

subsection \<open>Float arithmetic and comparison\<close>

fun fneg :: "pyfloat \<Rightarrow> pyfloat" where
  "fneg (Fin a) = Fin (- a)"
| "fneg PInf = NInf"
| "fneg NInf = PInf"
| "fneg NaN = NaN"

fun fadd :: "pyfloat \<Rightarrow> pyfloat \<Rightarrow> pyfloat" where
  "fadd (Fin a) (Fin b) = rnd (a + b)"
| "fadd NaN y = NaN"
| "fadd x NaN = NaN"
| "fadd PInf NInf = NaN"
| "fadd NInf PInf = NaN"
| "fadd PInf y = PInf"
| "fadd NInf y = NInf"
| "fadd x PInf = PInf"
| "fadd x NInf = NInf"

definition fsub :: "pyfloat \<Rightarrow> pyfloat \<Rightarrow> pyfloat" where
  "fsub x y = fadd x (fneg y)"

text \<open>The product of an infinity and a finite factor \<open>b\<close>.\<close>

definition inf_times :: "pyfloat \<Rightarrow> rat \<Rightarrow> pyfloat" where
  "inf_times i b = (if b = 0 then NaN else if 0 < b then i else fneg i)"

fun fmul :: "pyfloat \<Rightarrow> pyfloat \<Rightarrow> pyfloat" where
  "fmul (Fin a) (Fin b) = rnd (a * b)"
| "fmul NaN y = NaN"
| "fmul x NaN = NaN"
| "fmul (Fin a) y = inf_times y a"
| "fmul x (Fin b) = inf_times x b"
| "fmul PInf y = y"
| "fmul NInf y = fneg y"

text \<open>The IEEE quotient by a divisor that is not zero.\<close>

fun fquot :: "pyfloat \<Rightarrow> pyfloat \<Rightarrow> pyfloat" where
  "fquot (Fin a) (Fin b) = rnd (a / b)"
| "fquot NaN y = NaN"
| "fquot x NaN = NaN"
| "fquot (Fin a) y = Fin 0"
| "fquot x (Fin b) = (if 0 < b then x else fneg x)"
| "fquot PInf y = NaN"
| "fquot NInf y = NaN"

text \<open>Python's \<open>x / y\<close> on floats: a zero divisor raises, whatever the dividend.\<close>

definition py_truediv :: "pyfloat \<Rightarrow> pyfloat \<Rightarrow> py_error + pyfloat" where
  "py_truediv x y = (if y = Fin 0 then Inl ZeroDivisionError else Inr (fquot x y))"

text \<open>Python's \<open>x > y\<close> on floats: false whenever an operand is NaN.\<close>

fun fgt :: "pyfloat \<Rightarrow> pyfloat \<Rightarrow> bool" where
  "fgt (Fin a) (Fin b) = (b < a)"
| "fgt NaN y = False"
| "fgt x NaN = False"
| "fgt x PInf = False"
| "fgt NInf y = False"
| "fgt PInf y = True"
| "fgt x NInf = True"

text \<open>An \<open>int\<close> operand of a float operation is converted first; Python raises
  OverflowError when the integer is beyond the float range.\<close>

definition float_of_int :: "int \<Rightarrow> py_error + pyfloat" where
  "float_of_int n = (case rnd (of_int n) of
       PInf \<Rightarrow> Inl OverflowError
     | NInf \<Rightarrow> Inl OverflowError
     | x \<Rightarrow> Inr x)"

subsection \<open>The builtins \<open>round\<close>, \<open>str\<close> and the format \<open>.1f\<close>\<close>

text \<open>\<open>round(x)\<close>: the nearest \<open>int\<close>, ties to even; an infinity raises OverflowError and
  a NaN raises ValueError.\<close>

fun py_round :: "pyfloat \<Rightarrow> py_error + int" where
  "py_round (Fin q) = Inr (rhe q)"
| "py_round PInf = Inl OverflowError"
| "py_round NInf = Inl OverflowError"
| "py_round NaN = Inl ValueError"

text \<open>
  \<open>round(x, 1)\<close>: the float nearest to the one-decimal rounding of \<open>x\<close>, with the sign
  of \<open>x\<close>; special values round to themselves. The result is given with its sign bit,
  since \<open>repr\<close> prints it for a zero: \<open>round(-0.02, 1)\<close> is the negative zero, printed
  \<open>-0.0\<close>. The sign bit of the result is that of the argument, which is the sign of its
  value: the two arguments the calculator rounds this way are never the negative zero.
  The adjusted body weight is the weight in kg, positive or rounded to the positive zero,
  or a sum with the ideal body weight, itself a sum with 50 or 45.5, and a binary64 sum
  is the negative zero only when both of its terms are; the quotient of the adjusted body
  weight by 0.453592 is a zero only when the adjusted body weight is.
\<close>

fun py_round1 :: "pyfloat \<Rightarrow> bool \<times> pyfloat" where
  "py_round1 (Fin q) = (q < 0, rnd (of_int (rhe (q * 10)) / 10))"
| "py_round1 NInf = (True, NInf)"
| "py_round1 x = (False, x)"

definition digit_char :: "nat \<Rightarrow> char" where
  "digit_char d = ''0123456789'' ! d"

fun str_nat :: "nat \<Rightarrow> string" where
  "str_nat n = (if n < 10 then [digit_char n] else str_nat (n div 10) @ [digit_char (n mod 10)])"

text \<open>\<open>str\<close> of an \<open>int\<close>: its decimal digits, after a minus sign when negative.\<close>

definition str_int :: "int \<Rightarrow> string" where
  "str_int n = (if n < 0 then ''-'' @ str_nat (nat (- n)) else str_nat (nat n))"

text \<open>A float under the format \<open>.1f\<close>: the exact value rounded to one decimal, ties to even.\<close>

fun fmt_1f :: "pyfloat \<Rightarrow> string" where
  "fmt_1f (Fin q) = (let r = rhe (\<bar>q\<bar> * 10) in
     (if q < 0 then ''-'' else '''') @ str_nat (nat (r div 10)) @ ''.'' @ str_nat (nat (r mod 10)))"
| "fmt_1f PInf = ''inf''"
| "fmt_1f NInf = ''-inf''"
| "fmt_1f NaN = ''nan''"

text \<open>An \<open>int\<close> under the format \<open>.1f\<close> is converted to a float, then formatted.\<close>

definition fmt_1f_int :: "int \<Rightarrow> py_error + string" where
  "fmt_1f_int n = rbind (float_of_int n) (\<lambda>x. Inr (fmt_1f x))"

section \<open>The request schema\<close>

text \<open>
  \<open>CrClFormInput\<close>, as the handler receives it once the schema has accepted the form.
\<close>

record CrClFormInput =
  unit_system :: string
  weight :: pyfloat
  height :: pyfloat
  age :: int
  serum_creatinine :: pyfloat
  sex :: string

record CrClFormOutput =
  original_crcl :: string
  modified_crcl :: string
  crcl_range :: string

text \<open>
  The submitted form: every field may be absent. Numbers are taken as already parsed
  from their text; the two \<open>Literal\<close> fields keep their text.
\<close>

record CrClForm =
  form_unit_system :: "string option"
  form_weight :: "pyfloat option"
  form_height :: "pyfloat option"
  form_age :: "int option"
  form_serum_creatinine :: "pyfloat option"
  form_sex :: "string option"

text \<open>A field declared without a default is required.\<close>

definition required :: "'a option \<Rightarrow> ('a \<Rightarrow> bool) \<Rightarrow> py_error + 'a" where
  "required field ok = (case field of
       None \<Rightarrow> Inl ValidationError
     | Some v \<Rightarrow> if ok v then Inr v else Inl ValidationError)"

text \<open>A field declared with a default takes it when absent.\<close>

definition with_default :: "'a \<Rightarrow> 'a option \<Rightarrow> ('a \<Rightarrow> bool) \<Rightarrow> py_error + 'a" where
  "with_default dflt field ok = (case field of
       None \<Rightarrow> Inr dflt
     | Some v \<Rightarrow> if ok v then Inr v else Inl ValidationError)"

text \<open>The constraint \<open>gt=0\<close> on a float field.\<close>

definition gt0 :: "pyfloat \<Rightarrow> bool" where
  "gt0 x = (is_float x \<and> fgt x (Fin 0))"

definition validate_form :: "CrClForm \<Rightarrow> py_error + CrClFormInput" where
  "validate_form f =
     rbind (with_default ''metric'' (form_unit_system f) (\<lambda>s. s = ''metric'' \<or> s = ''imperial'')) (\<lambda>us.
     rbind (required (form_weight f) gt0) (\<lambda>w.
     rbind (required (form_height f) gt0) (\<lambda>h.
     rbind (required (form_age f) (\<lambda>a. 18 \<le> a)) (\<lambda>a.
     rbind (required (form_serum_creatinine f) gt0) (\<lambda>scr.
     rbind (required (form_sex f) (\<lambda>s. s = ''male'' \<or> s = ''female'')) (\<lambda>sx.
     Inr \<lparr>unit_system = us, weight = w, height = h, age = a,
          serum_creatinine = scr, sex = sx\<rparr>))))))"

text \<open>The inputs the schema lets through.\<close>

definition validated :: "CrClFormInput \<Rightarrow> bool" where
  "validated d \<longleftrightarrow>
     (unit_system d = ''metric'' \<or> unit_system d = ''imperial'') \<and>
     gt0 (weight d) \<and> gt0 (height d) \<and> 18 \<le> age d \<and> gt0 (serum_creatinine d) \<and>
     (sex d = ''male'' \<or> sex d = ''female'')"

section \<open>The calculator\<close>

text \<open>
  \<open>calculate_ibw\<close> (lines 79 to 85 of \<open>main.py\<close>). The \<open>int\<close> constants 50 and 60, and 72
  below, convert to floats exactly.
\<close>

definition calculate_ibw :: "pyfloat \<Rightarrow> string \<Rightarrow> pyfloat" where
  "calculate_ibw height_in_inches sx =
     (if sx = ''male''
      then fadd (Fin 50) (fmul (lit 2.3) (fsub height_in_inches (Fin 60)))
      else fadd (lit 45.5) (fmul (lit 2.3) (fsub height_in_inches (Fin 60))))"

text \<open>
  The local variables of \<open>calculate_crcl\<close> (lines 94 to 152), in two groups: those of
  lines 105 to 120 and those of lines 122 to 146. The source binds \<open>original_crcl\<close>,
  \<open>modified_crcl\<close> and \<open>crcl_using_ibw\<close> twice, to the float and then to its rounding:
  the two values are the fields \<open>_raw\<close> and \<open>_rounded\<close>. The local \<open>crcl_range\<close> is
  \<open>range_text\<close>.
\<close>

record body_weights =
  weight_in_kg :: pyfloat
  height_in_inches :: pyfloat
  ibw :: pyfloat
  abw :: pyfloat

record clearances =
  sex_factor :: pyfloat
  original_crcl_raw :: pyfloat
  modified_crcl_raw :: pyfloat
  crcl_using_ibw_raw :: pyfloat
  original_crcl_rounded :: int
  modified_crcl_rounded :: int
  crcl_using_ibw_rounded :: int
  range_text :: string

text \<open>Lines 105 to 120: unit conversion, ideal and adjusted body weight.\<close>

definition crcl_weights :: "CrClFormInput \<Rightarrow> py_error + body_weights" where
  "crcl_weights data =
     rbind (if unit_system data = ''imperial''
            then Inr (fmul (weight data) (lit 0.453592), height data)
            else rbind (py_truediv (height data) (lit 2.54)) (\<lambda>h. Inr (weight data, h)))
       (\<lambda>(w, h).
          let i = calculate_ibw h (sex data);
              a = (if fgt w i then fadd i (fmul (lit 0.4) (fsub w i)) else w)
          in Inr \<lparr>weight_in_kg = w, height_in_inches = h, ibw = i, abw = a\<rparr>)"

text \<open>Lines 122 to 146: the sex factor, the three clearances, their rounding and the
  range. Each clearance is the expression
  \<open>(140 - data.age) * w * sex_factor / (72 * data.serum_creatinine)\<close>, evaluated from left
  to right.\<close>

definition crcl_values :: "CrClFormInput \<Rightarrow> body_weights \<Rightarrow> py_error + clearances" where
  "crcl_values data b =
     (let sf = (if sex data = ''female'' then lit 0.85 else lit 1.0) in
      rbind (rbind (float_of_int (140 - age data)) (\<lambda>k.
        py_truediv (fmul (fmul k (weight_in_kg b)) sf) (fmul (Fin 72) (serum_creatinine data))))
        (\<lambda>original.
      rbind (rbind (float_of_int (140 - age data)) (\<lambda>k.
        py_truediv (fmul (fmul k (abw b)) sf) (fmul (Fin 72) (serum_creatinine data))))
        (\<lambda>modified.
      rbind (rbind (float_of_int (140 - age data)) (\<lambda>k.
        py_truediv (fmul (fmul k (ibw b)) sf) (fmul (Fin 72) (serum_creatinine data))))
        (\<lambda>using_ibw.
      rbind (py_round original) (\<lambda>original_i.
      rbind (py_round modified) (\<lambda>modified_i.
      rbind (py_round using_ibw) (\<lambda>using_ibw_i.
      rbind (fmt_1f_int (min using_ibw_i modified_i)) (\<lambda>lo.
      rbind (fmt_1f_int (max using_ibw_i modified_i)) (\<lambda>hi.
      Inr \<lparr>sex_factor = sf,
           original_crcl_raw = original, modified_crcl_raw = modified,
           crcl_using_ibw_raw = using_ibw,
           original_crcl_rounded = original_i, modified_crcl_rounded = modified_i,
           crcl_using_ibw_rounded = using_ibw_i,
           range_text = lo @ ''-'' @ hi @ '' mL/min''\<rparr>)))))))))"

text \<open>
  The handler, with the result of lines 148 to 152. \<open>repr\<close> is Python's conversion of a
  float to text (the shortest text that reads back as the same float), a parameter of the
  model: it takes the sign bit and the value of the float.
\<close>

definition calculate_crcl ::
  "(bool \<times> pyfloat \<Rightarrow> string) \<Rightarrow> CrClFormInput \<Rightarrow> py_error + CrClFormOutput" where
  "calculate_crcl repr data =
     rbind (crcl_weights data) (\<lambda>b.
     rbind (crcl_values data b) (\<lambda>c.
     rbind (py_truediv (abw b) (lit 0.453592)) (\<lambda>abw_lb.
     Inr \<lparr>original_crcl = str_int (original_crcl_rounded c) @
            '' mL/min'' @ [CHR 0x0A] @ ''Creatinine clearance, original Cockcroft-Gault'',
          modified_crcl = str_int (modified_crcl_rounded c) @
            '' mL/min'' @ [CHR 0x0A] @
            ''Creatinine clearance modified for overweight patient, using adjusted body weight of '' @
            repr (py_round1 (abw b)) @ '' kg ('' @ repr (py_round1 abw_lb) @ '' lbs).'',
          crcl_range = range_text c @ '' mL/min''\<rparr>)))"

text \<open>The endpoint: the schema, then the handler.\<close>

definition endpoint ::
  "(bool \<times> pyfloat \<Rightarrow> string) \<Rightarrow> CrClForm \<Rightarrow> py_error + CrClFormOutput" where
  "endpoint repr f = rbind (validate_form f) (calculate_crcl repr)"

section \<open>The formula of the specification and sample requests\<close>

text \<open>
  The Cockcroft-Gault formula for a weight term \<open>w\<close>:
  \<open>(140 - age) \<times> w \<times> sex_factor / (72 \<times> serum_creatinine)\<close>, the operations in the
  order of the source.
\<close>

definition cockcroft_gault :: "int \<Rightarrow> pyfloat \<Rightarrow> pyfloat \<Rightarrow> pyfloat \<Rightarrow> py_error + pyfloat" where
  "cockcroft_gault a scr sf w =
     rbind (float_of_int (140 - a)) (\<lambda>k. py_truediv (fmul (fmul k w) sf) (fmul (Fin 72) scr))"

text \<open>A man of 45 years, 70 kg and 170 cm, with a serum creatinine of 1.1 mg/dL.\<close>

definition request_metric :: CrClFormInput where
  "request_metric = \<lparr>unit_system = ''metric'', weight = Fin 70, height = Fin 170, age = 45,
     serum_creatinine = lit 1.1, sex = ''male''\<rparr>"

text \<open>A woman of 30 years, 110 lb and 64 in, with a serum creatinine of 0.9 mg/dL.\<close>

definition request_imperial :: CrClFormInput where
  "request_imperial = \<lparr>unit_system = ''imperial'', weight = Fin 110, height = Fin 64, age = 30,
     serum_creatinine = lit 0.9, sex = ''female''\<rparr>"

text \<open>The first request with a weight of 90 kg.\<close>

definition request_heavier :: CrClFormInput where
  "request_heavier = request_metric\<lparr>weight := Fin 90\<rparr>"

text \<open>A man of 150 years, 100 kg and 170 cm.\<close>

definition request_aged :: CrClFormInput where
  "request_aged = \<lparr>unit_system = ''metric'', weight = Fin 100, height = Fin 170, age = 150,
     serum_creatinine = lit 1.1, sex = ''male''\<rparr>"

text \<open>A man of 100 lb and 30 in.\<close>

definition request_short :: CrClFormInput where
  "request_short = \<lparr>unit_system = ''imperial'', weight = Fin 100, height = Fin 30, age = 45,
     serum_creatinine = lit 1.1, sex = ''male''\<rparr>"

text \<open>A weight of \<open>2 ** 1020\<close> kg, about \<open>1.12e307\<close>: a float, and the first request
  with that weight.\<close>

definition huge_weight :: rat where
  "huge_weight = 2 powi 1020"

definition request_huge :: CrClFormInput where
  "request_huge = request_metric\<lparr>weight := Fin huge_weight\<rparr>"

text \<open>A man of 62.72 lb and 30 in: his adjusted body weight is about \<open>-0.02\<close> kg.\<close>

definition request_light :: CrClFormInput where
  "request_light = \<lparr>unit_system = ''imperial'', weight = lit 62.72, height = Fin 30, age = 45,
     serum_creatinine = lit 1.1, sex = ''male''\<rparr>"

text \<open>A man of \<open>5e-324\<close> lb, the least positive float, and 67 in: his weight in kg rounds
  to zero.\<close>

definition request_least :: CrClFormInput where
  "request_least = \<lparr>unit_system = ''imperial'', weight = Fin (1 / 2 ^ 1074), height = Fin 67,
     age = 45, serum_creatinine = lit 1.1, sex = ''male''\<rparr>"

text \<open>
  The text \<open>repr\<close> gives for a float that \<open>round(x, 1)\<close> returned, of a magnitude below
  \<open>1e16\<close>: its text under the format \<open>.1f\<close>, with the sign of a zero.
\<close>

definition repr_rounded :: "bool \<times> pyfloat \<Rightarrow> string" where
  "repr_rounded sx =
     (if snd sx = Fin 0 then (if fst sx then ''-0.0'' else ''0.0'') else fmt_1f (snd sx))"

text \<open>The form of the first request, without the field \<open>unit_system\<close>.\<close>

definition form_without_units :: CrClForm where
  "form_without_units = \<lparr>form_unit_system = None, form_weight = Some (Fin 70),
     form_height = Some (Fin 170), form_age = Some 45,
     form_serum_creatinine = Some (lit 1.1), form_sex = Some ''male''\<rparr>"

text \<open>The local variables of the calculation on \<open>request_metric\<close>.\<close>

definition request_metric_weights :: body_weights where
  "request_metric_weights =
     \<lparr>weight_in_kg = Fin 70, height_in_inches = Fin (4709719098505071 / 70368744177664), ibw = Fin (4639904438927231 / 70368744177664), abw = Fin (4754267500330931 / 70368744177664)\<rparr>"

definition request_metric_values :: clearances where
  "request_metric_values =
     \<lparr>sex_factor = Fin 1, original_crcl_raw = Fin (5908486727038707 / 70368744177664), modified_crcl_raw = Fin (2851359927597465 / 35184372088832),
       crcl_using_ibw_raw = Fin (5565541940632411 / 70368744177664), original_crcl_rounded = 84, modified_crcl_rounded = 81,
       crcl_using_ibw_rounded = 79, range_text = ''79.0-81.0 mL/min''\<rparr>"

text \<open>The local variables of the calculation on \<open>request_imperial\<close>.\<close>

definition request_imperial_weights :: body_weights where
  "request_imperial_weights =
     \<lparr>weight_in_kg = Fin (7022113869987693 / 140737488355328), height_in_inches = Fin 64, ibw = Fin (3849170306518221 / 70368744177664), abw = Fin (7022113869987693 / 140737488355328)\<rparr>"

definition request_imperial_values :: clearances where
  "request_imperial_values =
     \<lparr>sex_factor = Fin (7656119366529843 / 9007199254740992), original_crcl_raw = Fin (5066108386140813 / 70368744177664), modified_crcl_raw = Fin (5066108386140813 / 70368744177664),
       crcl_using_ibw_raw = Fin (173561643354289 / 2199023255552), original_crcl_rounded = 72, modified_crcl_rounded = 72,
       crcl_using_ibw_rounded = 79, range_text = ''72.0-79.0 mL/min''\<rparr>"

text \<open>The local variables of the calculation on \<open>request_heavier\<close>.\<close>

definition request_heavier_weights :: body_weights where
  "request_heavier_weights =
     \<lparr>weight_in_kg = Fin 90, height_in_inches = Fin (4709719098505071 / 70368744177664), ibw = Fin (4639904438927231 / 70368744177664), abw = Fin (5317217453752243 / 70368744177664)\<rparr>"

definition request_heavier_values :: clearances where
  "request_heavier_values =
     \<lparr>sex_factor = Fin 1, original_crcl_raw = Fin (7596625791906909 / 70368744177664), modified_crcl_raw = Fin (6377975481142211 / 70368744177664),
       crcl_using_ibw_raw = Fin (5565541940632411 / 70368744177664), original_crcl_rounded = 108, modified_crcl_rounded = 91,
       crcl_using_ibw_rounded = 79, range_text = ''79.0-91.0 mL/min''\<rparr>"

text \<open>The local variables of the calculation on \<open>request_aged\<close>.\<close>

definition request_aged_weights :: body_weights where
  "request_aged_weights =
     \<lparr>weight_in_kg = Fin 100, height_in_inches = Fin (4709719098505071 / 70368744177664), ibw = Fin (4639904438927231 / 70368744177664), abw = Fin (5598692430462899 / 70368744177664)\<rparr>"

definition request_aged_values :: clearances where
  "request_aged_values =
     \<lparr>sex_factor = Fin 1, original_crcl_raw = Fin (- (3553976978669899 / 281474976710656)), modified_crcl_raw = Fin (- (2827622439627727 / 281474976710656)),
       crcl_using_ibw_raw = Fin (- (4686772160532557 / 562949953421312)), original_crcl_rounded = - 13, modified_crcl_rounded = - 10,
       crcl_using_ibw_rounded = - 8, range_text = ''-10.0--8.0 mL/min''\<rparr>"

text \<open>The local variables of the calculation on \<open>request_short\<close>.\<close>

definition request_short_weights :: body_weights where
  "request_short_weights =
     \<lparr>weight_in_kg = Fin (3191869940903497 / 70368744177664), height_in_inches = Fin 30, ibw = Fin (- 19), abw = Fin (1898177170944117 / 281474976710656)\<rparr>"

definition request_short_values :: clearances where
  "request_short_values =
     \<lparr>sex_factor = Fin 1, original_crcl_raw = Fin (3828631873558487 / 70368744177664), modified_crcl_raw = Fin (4553707859588159 / 562949953421312),
       crcl_using_ibw_raw = Fin (- (6414928446499167 / 281474976710656)), original_crcl_rounded = 54, modified_crcl_rounded = 8,
       crcl_using_ibw_rounded = - 23, range_text = ''-23.0-8.0 mL/min''\<rparr>"

text \<open>The local variables of the calculation on \<open>request_light\<close>.\<close>

definition request_light_weights :: body_weights where
  "request_light_weights =
     \<lparr>weight_in_kg = Fin (8007763307738693 / 281474976710656), height_in_inches = Fin 30, ibw = Fin (- 19), abw = Fin (- (5709411406001 / 281474976710656))\<rparr>"

definition request_light_values :: clearances where
  "request_light_values =
     \<lparr>sex_factor = Fin 1, original_crcl_raw = Fin (2401317911095883 / 70368744177664), modified_crcl_raw = Fin (- (7012771989593147 / 288230376151711744)),
       crcl_using_ibw_raw = Fin (- (6414928446499167 / 281474976710656)), original_crcl_rounded = 34, modified_crcl_rounded = 0,
       crcl_using_ibw_rounded = - 23, range_text = ''-23.0-0.0 mL/min''\<rparr>"

text \<open>The local variables of the calculation on \<open>request_least\<close>.\<close>

definition request_least_weights :: body_weights where
  "request_least_weights =
     \<lparr>weight_in_kg = Fin 0, height_in_inches = Fin 67, ibw = Fin (2325686995071795 / 35184372088832), abw = Fin 0\<rparr>"

definition request_least_values :: clearances where
  "request_least_values =
     \<lparr>sex_factor = Fin 1, original_crcl_raw = Fin 0, modified_crcl_raw = Fin 0,
       crcl_using_ibw_raw = Fin (5579299609389407 / 70368744177664), original_crcl_rounded = 0, modified_crcl_rounded = 0,
       crcl_using_ibw_rounded = 79, range_text = ''0.0-79.0 mL/min''\<rparr>"

section \<open>Sequencing\<close>

lemma rbind_Inr_iff: "rbind m f = Inr y \<longleftrightarrow> (\<exists>v. m = Inr v \<and> f v = Inr y)"
  by (cases m) (simp_all add: rbind_def)

lemma rbind_Inl_iff: "rbind m f = Inl e \<longleftrightarrow> m = Inl e \<or> (\<exists>v. m = Inr v \<and> f v = Inl e)"
  by (cases m) (simp_all add: rbind_def)

lemma rbind_Inr [simp]: "rbind (Inr v) f = f v"
  by (simp add: rbind_def)

lemma rbind_Inl [simp]: "rbind (Inl e) f = Inl e"
  by (simp add: rbind_def)

section \<open>Rounding\<close>

lemma p2_pos: "0 < (2::rat) powi k"
  by (simp add: zero_less_power_int)

lemma p2_add: "(2::rat) powi (a + b) = 2 powi a * 2 powi b"
  by (simp add: power_int_add)

lemma p2_diff: "(2::rat) powi (a - b) = 2 powi a / 2 powi b"
  by (simp add: power_int_diff)

lemma p2_join: "a + b = c \<Longrightarrow> (2::rat) powi a * 2 powi b = 2 powi c"
  by (auto simp: p2_add)

lemma p2_mono: "a \<le> b \<Longrightarrow> (2::rat) powi a \<le> 2 powi b"
  by (simp add: power_int_increasing)

lemma p2_strict: "a < b \<Longrightarrow> (2::rat) powi a < 2 powi b"
  by (simp add: power_int_strict_increasing)

lemma p2_nat: "0 \<le> k \<Longrightarrow> (2::rat) powi k = of_int (2 ^ nat k)"
  by (simp add: power_int_def)

lemma ilog2_bounds:
  assumes "0 < q"
  shows "2 powi (ilog2 q) \<le> q \<and> q < 2 powi (ilog2 q + 1)"
proof (cases "1 \<le> q")
  case True
  define n where "n = \<lfloor>q\<rfloor>"
  have n: "0 < n" using True by (simp add: n_def)
  have e: "ilog2 q = bitlen n - 1" using True by (simp add: ilog2_def n_def)
  from bitlen_bounds [OF n] have b: "2 ^ nat (bitlen n - 1) \<le> n" "n + 1 \<le> 2 ^ nat (bitlen n)"
    by simp_all
  have l: "1 \<le> bitlen n" using n by (simp add: bitlen_alt_def)
  have "of_int (2 ^ nat (bitlen n - 1)) \<le> (of_int n :: rat)" using b(1) by (simp only: of_int_le_iff)
  also have "\<dots> \<le> q" by (simp add: n_def)
  finally have lo: "2 powi (ilog2 q) \<le> q" using l by (simp add: e p2_nat)
  have "q < of_int (n + 1)" unfolding n_def by linarith
  also have "\<dots> \<le> of_int (2 ^ nat (bitlen n))" using b(2) by (simp only: of_int_le_iff)
  finally have hi: "q < 2 powi (ilog2 q + 1)" using l by (simp add: e p2_nat)
  from lo hi show ?thesis ..
next
  case False
  define n where "n = \<lfloor>1 / q\<rfloor>"
  define l where "l = bitlen n"
  have q1: "1 \<le> 1 / q" using False assms by simp
  have n: "0 < n" using q1 by (simp add: n_def)
  from bitlen_bounds [OF n] have b: "2 ^ nat (l - 1) \<le> n" "n + 1 \<le> 2 ^ nat l"
    by (simp_all add: l_def)
  have l: "1 \<le> l" using n by (simp add: bitlen_alt_def l_def)
  have "of_int (2 ^ nat (l - 1)) \<le> (of_int n :: rat)" using b(1) by (simp only: of_int_le_iff)
  also have "\<dots> \<le> 1 / q" by (simp add: n_def)
  finally have A: "2 powi (l - 1) \<le> 1 / q" using l by (simp add: p2_nat)
  have "1 / q < of_int (n + 1)" unfolding n_def by linarith
  also have "\<dots> \<le> of_int (2 ^ nat l)" using b(2) by (simp only: of_int_le_iff)
  finally have B: "1 / q < 2 powi l" using l by (simp add: p2_nat)
  have A': "q \<le> 2 powi (1 - l)"
  proof -
    have "q * 2 powi (l - 1) \<le> 1" using A assms p2_pos [of "l - 1"]
      by (simp add: field_simps)
    moreover have "2 powi (1 - l) * 2 powi (l - 1) = (1::rat)"
      by (simp flip: p2_add)
    ultimately show ?thesis using p2_pos [of "l - 1"]
      by (metis mult_le_cancel_right_pos)
  qed
  have B': "2 powi (- l) < q"
  proof -
    have "1 < q * 2 powi l" using B assms by (simp add: field_simps)
    then show ?thesis using p2_pos [of l] by (simp add: power_int_minus field_simps)
  qed
  show ?thesis
  proof (cases "q * 2 ^ nat (l - 1) = 1")
    case True
    then have e: "ilog2 q = 1 - l" using False by (simp add: ilog2_def n_def l_def)
    have "q * 2 powi (l - 1) = 1" using True l by (simp add: power_int_def)
    then have "q = 2 powi (1 - l)" using p2_pos [of "l - 1"]
      by (simp add: p2_diff field_simps)
    then have "2 powi (1 - l) \<le> q" "q < 2 powi (2 - l)"
      using p2_strict [of "1 - l" "2 - l"] by simp_all
    moreover have "ilog2 q + 1 = 2 - l" using e by simp
    ultimately show ?thesis using e by simp
  next
    case F: False
    then have e: "ilog2 q = - l" using False by (simp add: ilog2_def n_def l_def Let_def)
    have "q * 2 powi (l - 1) \<noteq> 1" using F l by (simp add: power_int_def)
    then have "q \<noteq> 2 powi (1 - l)" using p2_pos [of "l - 1"]
      by (simp add: p2_diff field_simps)
    with A' have "q < 2 powi (1 - l)" by simp
    with B' show ?thesis by (simp add: e)
  qed
qed

lemma ilog2_unique:
  assumes "2 powi e \<le> q" "q < 2 powi (e + 1)"
  shows "ilog2 q = e"
proof -
  have q: "0 < q" using assms(1) p2_pos [of e] by linarith
  from ilog2_bounds [OF q] have b: "2 powi (ilog2 q) \<le> q" "q < 2 powi (ilog2 q + 1)" by simp_all
  have "\<not> ilog2 q < e"
  proof
    assume "ilog2 q < e"
    then have "2 powi (ilog2 q + 1) \<le> (2::rat) powi e" by (intro p2_mono) simp
    with b(2) assms(1) show False by linarith
  qed
  moreover have "\<not> e < ilog2 q"
  proof
    assume "e < ilog2 q"
    then have "2 powi (e + 1) \<le> (2::rat) powi (ilog2 q)" by (intro p2_mono) simp
    with b(1) assms(2) show False by linarith
  qed
  ultimately show ?thesis by simp
qed

lemma rhe_spec:
  "\<bar>x - of_int (rhe x)\<bar> < 1 / 2 \<or> (\<bar>x - of_int (rhe x)\<bar> = 1 / 2 \<and> even (rhe x))"
proof -
  define f where "f = \<lfloor>x\<rfloor>"
  define d where "d = x - of_int f"
  have d: "0 \<le> d" "d < 1" unfolding d_def f_def by linarith+
  have x: "x = of_int f + d" by (simp add: d_def)
  consider "d < 1 / 2" | "1 / 2 < d" | "d = 1 / 2" "even f" | "d = 1 / 2" "odd f"
    by fastforce
  then show ?thesis
  proof cases
    case 1
    then have r: "rhe x = f" by (simp add: rhe_def Let_def f_def d_def)
    show ?thesis unfolding r using 1 d by (auto simp: d_def)
  next
    case 2
    then have r: "rhe x = f + 1" by (simp add: rhe_def Let_def f_def d_def)
    show ?thesis unfolding r using 2 d by (auto simp: d_def)
  next
    case 3
    then have r: "rhe x = f" by (simp add: rhe_def Let_def f_def d_def)
    show ?thesis unfolding r using 3 d by (auto simp: d_def)
  next
    case 4
    then have r: "rhe x = f + 1" by (simp add: rhe_def Let_def f_def d_def)
    show ?thesis unfolding r using 4 d by (auto simp: d_def)
  qed
qed

lemma rhe_eqI:
  assumes "\<bar>x - of_int m\<bar> < 1 / 2 \<or> (\<bar>x - of_int m\<bar> = 1 / 2 \<and> even m)"
  shows "rhe x = m"
proof (rule ccontr)
  assume ne: "rhe x \<noteq> m"
  define k where "k = rhe x"
  have s: "\<bar>x - of_int k\<bar> < 1 / 2 \<or> (\<bar>x - of_int k\<bar> = 1 / 2 \<and> even k)"
    unfolding k_def by (rule rhe_spec)
  have "\<bar>(of_int k :: rat) - of_int m\<bar> \<le> \<bar>x - of_int k\<bar> + \<bar>x - of_int m\<bar>" by linarith
  then have le: "\<bar>(of_int (k - m) :: rat)\<bar> \<le> \<bar>x - of_int k\<bar> + \<bar>x - of_int m\<bar>" by simp
  have km: "k \<noteq> m" using ne by (simp add: k_def)
  then have "1 \<le> \<bar>k - m\<bar>" by linarith
  then have ge1: "1 \<le> \<bar>(of_int (k - m) :: rat)\<bar>"
    by (metis of_int_1 of_int_abs of_int_le_iff)
  from s assms le ge1 have t: "\<bar>x - of_int k\<bar> = 1 / 2" "\<bar>x - of_int m\<bar> = 1 / 2" "even k" "even m"
    by linarith+
  with le have "\<bar>(of_int (k - m) :: rat)\<bar> \<le> 1" by simp
  then have "\<bar>k - m\<bar> \<le> 1" by (metis of_int_1 of_int_abs of_int_le_iff)
  with km have "\<bar>k - m\<bar> = 1" by linarith
  then have "odd (k - m)" by presburger
  with t(3,4) show False by simp
qed

lemma rhe_of_int [simp]: "rhe (of_int n) = n"
  by (rule rhe_eqI) simp

lemma rhe_0 [simp]: "rhe 0 = 0"
  using rhe_of_int [of 0] by simp

lemma rhe_numeral [simp]: "rhe (numeral n) = numeral n"
  using rhe_of_int [of "numeral n"] by simp

lemma rhe_neg_numeral [simp]: "rhe (- numeral n) = - numeral n"
  using rhe_of_int [of "- numeral n"] by simp

lemma rhe_1 [simp]: "rhe 1 = 1"
  using rhe_of_int [of 1] by simp

lemma rhe_neg: "rhe (- x) = - rhe x"
proof (rule rhe_eqI)
  have "\<bar>- x - of_int (- rhe x)\<bar> = \<bar>x - of_int (rhe x)\<bar>" by simp
  with rhe_spec [of x]
  show "\<bar>- x - of_int (- rhe x)\<bar> < 1 / 2 \<or> (\<bar>- x - of_int (- rhe x)\<bar> = 1 / 2 \<and> even (- rhe x))"
    by simp
qed

lemma rhe_err: "\<bar>x - of_int (rhe x)\<bar> \<le> 1 / 2"
  using rhe_spec [of x] by linarith

lemma rhe_mono:
  assumes "x \<le> y"
  shows "rhe x \<le> rhe y"
proof (rule ccontr)
  assume "\<not> rhe x \<le> rhe y"
  then have lt: "rhe y + 1 \<le> rhe x" by simp
  then have "(of_int (rhe y + 1) :: rat) \<le> of_int (rhe x)" by (simp only: of_int_le_iff)
  then have r: "(of_int (rhe y) :: rat) + 1 \<le> of_int (rhe x)" by simp
  from rhe_err [of x] rhe_err [of y] r assms
  have x: "of_int (rhe x) - x = 1 / 2" and y: "y - of_int (rhe y) = 1 / 2"
    and e: "(of_int (rhe y) :: rat) + 1 = of_int (rhe x)"
    by linarith+
  from e have "of_int (rhe y + 1) = (of_int (rhe x) :: rat)" by simp
  then have e': "rhe y + 1 = rhe x" by (simp only: of_int_eq_iff)
  from x rhe_spec [of x] have "even (rhe x)" by linarith
  moreover from y rhe_spec [of y] have "even (rhe y)" by linarith
  ultimately show False using e' by presburger
qed

lemma rhe_le_int: "x \<le> of_int n \<Longrightarrow> rhe x \<le> n"
  using rhe_mono [of x "of_int n"] by simp

lemma rhe_ge_int: "of_int n \<le> x \<Longrightarrow> n \<le> rhe x"
  using rhe_mono [of "of_int n" x] by simp

lemma ulp_pos: "0 < ulp q"
  by (simp add: ulp_def p2_pos)

lemma ulp_neg [simp]: "ulp (- q) = ulp q"
  by (simp add: ulp_def)

lemma ulp_abs [simp]: "ulp \<bar>q\<bar> = ulp q"
  by (simp add: ulp_def)

lemma rnd_exact_neg: "rnd_exact (- q) = - rnd_exact q"
  by (simp add: rnd_exact_def rhe_neg)

lemma rnd_exact_0 [simp]: "rnd_exact 0 = 0"
  by (simp add: rnd_exact_def)

lemma rnd_exact_err: "\<bar>rnd_exact q - q\<bar> \<le> ulp q / 2"
proof -
  have "rnd_exact q - q = (of_int (rhe (q / ulp q)) - q / ulp q) * ulp q"
    using ulp_pos [of q] by (simp add: rnd_exact_def field_simps)
  then have "\<bar>rnd_exact q - q\<bar> = \<bar>q / ulp q - of_int (rhe (q / ulp q))\<bar> * ulp q"
    using ulp_pos [of q] by (simp add: abs_mult abs_minus_commute)
  also have "\<dots> \<le> 1 / 2 * ulp q"
    using rhe_err [of "q / ulp q"] ulp_pos [of q] by (intro mult_right_mono) simp_all
  finally show ?thesis by simp
qed

lemma rnd_exact_nonneg: "0 \<le> q \<Longrightarrow> 0 \<le> rnd_exact q"
  using ulp_pos [of q] rhe_ge_int [of 0 "q / ulp q"] by (simp add: rnd_exact_def)

lemma ilog2_mono:
  assumes "0 < a" "a \<le> b"
  shows "ilog2 a \<le> ilog2 b"
proof (rule ccontr)
  assume "\<not> ilog2 a \<le> ilog2 b"
  then have "2 powi (ilog2 b + 1) \<le> (2::rat) powi (ilog2 a)" by (intro p2_mono) simp
  moreover have "2 powi (ilog2 a) \<le> a" using ilog2_bounds [of a] assms by simp
  moreover have "b < 2 powi (ilog2 b + 1)" using ilog2_bounds [of b] assms by simp
  ultimately show False using assms by linarith
qed

lemma rnd_exact_upper:
  assumes "0 < q"
  shows "rnd_exact q \<le> 2 powi (max (ilog2 q) (- 1022) + 1)"
proof -
  define e where "e = max (ilog2 q) (- 1022)"
  have u: "ulp q = 2 powi (e - 52)" using assms by (simp add: ulp_def e_def)
  have "q < 2 powi (ilog2 q + 1)" using ilog2_bounds [OF assms] by simp
  also have "\<dots> \<le> 2 powi (e + 1)" by (intro p2_mono) (simp add: e_def)
  finally have "q / ulp q \<le> 2 powi (e + 1) / ulp q"
    using ulp_pos [of q] by (simp add: divide_right_mono)
  also have "2 powi (e + 1) / ulp q = (2::rat) powi 53"
    unfolding u by (simp flip: p2_diff)
  also have "\<dots> = of_int (2 ^ 53)" by simp
  finally have "rhe (q / ulp q) \<le> 2 ^ 53" by (rule rhe_le_int)
  then have "(of_int (rhe (q / ulp q)) :: rat) \<le> of_int (2 ^ 53)" by (simp only: of_int_le_iff)
  then have "rnd_exact q \<le> of_int (2 ^ 53) * ulp q"
    unfolding rnd_exact_def using ulp_pos [of q] by (intro mult_right_mono) simp_all
  also have "\<dots> = 2 powi 53 * 2 powi (e - 52)" unfolding u by simp
  also have "\<dots> = 2 powi (e + 1)" by (rule p2_join) simp
  finally show ?thesis by (simp add: e_def)
qed

lemma rnd_exact_lower:
  assumes "0 < q" "- 1022 \<le> ilog2 q"
  shows "2 powi (ilog2 q) \<le> rnd_exact q"
proof -
  define e where "e = ilog2 q"
  have u: "ulp q = 2 powi (e - 52)" using assms by (simp add: ulp_def e_def max_def)
  have "(2::rat) powi 52 = 2 powi e / ulp q" unfolding u by (simp flip: p2_diff)
  also have "\<dots> \<le> q / ulp q"
    using ilog2_bounds [OF assms(1)] ulp_pos [of q] by (simp add: divide_right_mono e_def)
  finally have "of_int (2 ^ 52) \<le> q / ulp q" by simp
  then have "2 ^ 52 \<le> rhe (q / ulp q)" by (rule rhe_ge_int)
  then have "(of_int (2 ^ 52) :: rat) \<le> of_int (rhe (q / ulp q))" by (simp only: of_int_le_iff)
  then have "of_int (2 ^ 52) * ulp q \<le> rnd_exact q"
    unfolding rnd_exact_def using ulp_pos [of q] by (intro mult_right_mono) simp_all
  moreover have "of_int (2 ^ 52) * ulp q = 2 powi 52 * 2 powi (e - 52)" unfolding u by simp
  moreover have "2 powi 52 * 2 powi (e - 52) = (2::rat) powi e" by (rule p2_join) simp
  ultimately show ?thesis by (simp add: e_def)
qed

lemma rnd_exact_mono_pos:
  assumes "0 < a" "a \<le> b"
  shows "rnd_exact a \<le> rnd_exact b"
proof -
  have b: "0 < b" using assms by simp
  define ea where "ea = max (ilog2 a) (- 1022)"
  define eb where "eb = max (ilog2 b) (- 1022)"
  have le: "ea \<le> eb" using ilog2_mono [OF assms] by (simp add: ea_def eb_def)
  show ?thesis
  proof (cases "ea = eb")
    case True
    then have u: "ulp a = ulp b" using assms by (simp add: ulp_def ea_def eb_def)
    have "a / ulp b \<le> b / ulp b" using assms ulp_pos [of b] by (simp add: divide_right_mono)
    then have "rhe (a / ulp b) \<le> rhe (b / ulp b)" by (rule rhe_mono)
    then have "(of_int (rhe (a / ulp b)) :: rat) \<le> of_int (rhe (b / ulp b))"
      by (simp only: of_int_le_iff)
    then show ?thesis unfolding rnd_exact_def u using ulp_pos [of b]
      by (intro mult_right_mono) simp_all
  next
    case False
    with le have lt: "ea < eb" by simp
    then have i: "eb = ilog2 b" "- 1022 \<le> ilog2 b" by (simp_all add: ea_def eb_def max_def split: if_splits)
    have "rnd_exact a \<le> 2 powi (ea + 1)" using rnd_exact_upper [OF assms(1)] by (simp add: ea_def)
    also have "\<dots> \<le> 2 powi eb" using lt by (intro p2_mono) simp
    also have "\<dots> \<le> rnd_exact b" using rnd_exact_lower [OF b i(2)] by (simp add: i(1))
    finally show ?thesis .
  qed
qed

lemma rnd_exact_mono:
  assumes "a \<le> b"
  shows "rnd_exact a \<le> rnd_exact b"
proof -
  consider "0 < a" | "a \<le> 0" "0 \<le> b" | "b < 0" by linarith
  then show ?thesis
  proof cases
    case 1
    then show ?thesis using assms by (rule rnd_exact_mono_pos)
  next
    case 2
    have "rnd_exact a \<le> 0" using rnd_exact_nonneg [of "- a"] 2 by (simp add: rnd_exact_neg)
    also have "0 \<le> rnd_exact b" using 2 by (simp add: rnd_exact_nonneg)
    finally show ?thesis .
  next
    case 3
    then have "rnd_exact (- b) \<le> rnd_exact (- a)" using assms by (intro rnd_exact_mono_pos) simp_all
    then show ?thesis by (simp add: rnd_exact_neg)
  qed
qed

lemma ilog2_less:
  assumes "0 < q" "q < 2 powi k"
  shows "ilog2 q < k"
proof (rule ccontr)
  assume "\<not> ilog2 q < k"
  then have "(2::rat) powi k \<le> 2 powi (ilog2 q)" by (intro p2_mono) simp
  with ilog2_bounds [OF assms(1)] assms(2) show False by linarith
qed

lemma rnd_exact_fix_lt:
  assumes "- 1074 \<le> k" "\<bar>m\<bar> < 2 ^ 53"
  shows "rnd_exact (of_int m * 2 powi k) = of_int m * 2 powi k"
proof (cases "m = 0")
  case True
  then show ?thesis by simp
next
  case False
  define r :: rat where "r = of_int m * 2 powi k"
  have pos: "0 < \<bar>r\<bar>" using False p2_pos [of k] by (simp add: r_def)
  have "(of_int \<bar>m\<bar> :: rat) < of_int (2 ^ 53)" using assms(2) by (simp only: of_int_less_iff)
  then have "\<bar>r\<bar> < of_int (2 ^ 53) * 2 powi k"
    using p2_pos [of k] by (simp add: r_def abs_mult)
  also have "\<dots> = 2 powi 53 * 2 powi k" by simp
  also have "\<dots> = 2 powi (k + 53)" by (rule p2_join) simp
  finally have "ilog2 \<bar>r\<bar> < k + 53" using pos by (intro ilog2_less)
  define j where "j = max (ilog2 \<bar>r\<bar>) (- 1022) - 52"
  have j: "j \<le> k" using \<open>ilog2 \<bar>r\<bar> < k + 53\<close> assms(1) by (simp add: j_def)
  have u: "ulp r = 2 powi j" by (simp add: ulp_def j_def)
  have "2 powi (k - j) * 2 powi j = (2::rat) powi k" by (rule p2_join) simp
  then have split: "r = of_int m * 2 powi (k - j) * 2 powi j" by (simp add: r_def)
  have "(2::rat) powi (k - j) = of_int (2 ^ nat (k - j))" using j by (simp add: p2_nat)
  then have rr: "r = of_int (m * 2 ^ nat (k - j)) * 2 powi j" using split by simp
  have "r / ulp r = r / 2 powi j" by (simp only: u)
  also have "\<dots> = of_int (m * 2 ^ nat (k - j))" using p2_pos [of j] by (subst rr) simp
  finally have "rhe (r / ulp r) = m * 2 ^ nat (k - j)" by (simp only: rhe_of_int)
  then have "rnd_exact r = of_int (m * 2 ^ nat (k - j)) * 2 powi j"
    by (simp only: rnd_exact_def u)
  also have "\<dots> = r" by (simp only: rr)
  finally show ?thesis by (simp only: r_def)
qed

lemma rnd_exact_fix:
  assumes "- 1074 \<le> k" "\<bar>m\<bar> \<le> 2 ^ 53"
  shows "rnd_exact (of_int m * 2 powi k) = of_int m * 2 powi k"
proof (cases "\<bar>m\<bar> < 2 ^ 53")
  case True
  with assms(1) show ?thesis by (rule rnd_exact_fix_lt)
next
  case False
  with assms(2) have m: "\<bar>m\<bar> = 2 ^ 53" by simp
  define h where "h = m div 2"
  from m have "m = 2 ^ 53 \<or> m = - (2 ^ 53)" by linarith
  then have h: "m = 2 * h" "\<bar>h\<bar> < 2 ^ 53" unfolding h_def by (elim disjE; simp)+
  have "2 * 2 powi k = (2::rat) powi (k + 1)" using p2_join [of 1 k "k + 1"] by simp
  then have e: "of_int m * 2 powi k = (of_int h :: rat) * 2 powi (k + 1)"
    by (simp add: h(1))
  show ?thesis unfolding e using assms(1) h(2) by (intro rnd_exact_fix_lt) simp_all
qed

lemma rhe_quot_bound: "\<bar>rhe (q / ulp q)\<bar> \<le> 2 ^ 53"
proof -
  have pos: "0 \<le> rhe (a / ulp a) \<and> rhe (a / ulp a) \<le> 2 ^ 53" if a: "0 < a" for a
  proof -
    define e where "e = max (ilog2 a) (- 1022)"
    have u: "ulp a = 2 powi (e - 52)" using a by (simp add: ulp_def e_def)
    have "a < 2 powi (ilog2 a + 1)" using ilog2_bounds [OF a] by simp
    also have "\<dots> \<le> 2 powi (e + 1)" by (intro p2_mono) (simp add: e_def)
    finally have "a / ulp a \<le> 2 powi (e + 1) / ulp a"
      using ulp_pos [of a] by (simp add: divide_right_mono)
    also have "2 powi (e + 1) / ulp a = (2::rat) powi 53"
      unfolding u by (simp flip: p2_diff)
    also have "\<dots> = of_int (2 ^ 53)" by simp
    finally have "rhe (a / ulp a) \<le> 2 ^ 53" by (rule rhe_le_int)
    moreover have "0 \<le> rhe (a / ulp a)" using a ulp_pos [of a] by (intro rhe_ge_int) simp
    ultimately show ?thesis by simp
  qed
  consider "0 < q" | "q = 0" | "0 < - q" by linarith
  then show ?thesis
  proof cases
    case 1
    then show ?thesis using pos [of q] by simp
  next
    case 2
    then show ?thesis by simp
  next
    case 3
    then show ?thesis using pos [of "- q"] by (simp add: rhe_neg)
  qed
qed

lemma rnd_exact_idem: "rnd_exact (rnd_exact q) = rnd_exact q"
proof -
  have "- 1074 \<le> max (ilog2 \<bar>q\<bar>) (- 1022) - 52" by simp
  then show ?thesis
    unfolding rnd_exact_def [of q] ulp_def [of q] using rhe_quot_bound [of q]
    by (intro rnd_exact_fix) (simp_all add: ulp_def)
qed

lemma rnd_Fin_iff: "rnd q = Fin r \<longleftrightarrow> r = rnd_exact q \<and> \<bar>rnd_exact q\<bar> < 2 powi 1024"
  by (auto simp: rnd_def)

lemma rnd_PInf_iff: "rnd q = PInf \<longleftrightarrow> 2 powi 1024 \<le> rnd_exact q"
proof -
  have "rnd_exact q \<le> 0" if "q \<le> 0"
    using rnd_exact_nonneg [of "- q"] that by (simp add: rnd_exact_neg)
  moreover have "0 \<le> rnd_exact q" if "0 < q" using that by (simp add: rnd_exact_nonneg)
  moreover have "0 < (2::rat) powi 1024" by (rule p2_pos)
  ultimately show ?thesis unfolding rnd_def by (cases "0 < q") (auto simp: not_less)
qed

lemma rnd_NInf_iff: "rnd q = NInf \<longleftrightarrow> rnd_exact q \<le> - (2 powi 1024)"
proof -
  have "rnd_exact q \<le> 0" if "q \<le> 0"
    using rnd_exact_nonneg [of "- q"] that by (simp add: rnd_exact_neg)
  moreover have "0 \<le> rnd_exact q" if "0 < q" using that by (simp add: rnd_exact_nonneg)
  moreover have "0 < (2::rat) powi 1024" by (rule p2_pos)
  ultimately show ?thesis unfolding rnd_def by (cases "0 < q") (auto simp: not_less)
qed

lemma rnd_not_NaN [simp]: "rnd q \<noteq> NaN"
  by (simp add: rnd_def)

lemma rnd_neg: "rnd (- q) = fneg (rnd q)"
proof -
  have "rnd_exact q = 0" if "q = 0" using that by simp
  then show ?thesis using p2_pos [of 1024]
    by (cases "q = 0") (auto simp: rnd_def rnd_exact_neg)
qed

lemma rnd_idem: "rnd q = Fin r \<Longrightarrow> rnd r = Fin r"
  by (simp add: rnd_Fin_iff rnd_exact_idem)

lemma rnd_0 [simp]: "rnd 0 = Fin 0"
  using p2_pos [of 1024] by (simp add: rnd_def)

lemma rnd_mono_Fin: "a \<le> b \<Longrightarrow> rnd a = Fin x \<Longrightarrow> rnd b = Fin y \<Longrightarrow> x \<le> y"
  using rnd_exact_mono [of a b] by (simp add: rnd_Fin_iff)

lemma rnd_of_int:
  assumes "\<bar>n\<bar> \<le> 2 ^ 53"
  shows "rnd (of_int n) = Fin (of_int n)"
proof -
  have "rnd_exact (of_int n * 2 powi 0) = of_int n * 2 powi 0"
    using assms by (intro rnd_exact_fix) simp_all
  then have e: "rnd_exact (of_int n) = of_int n" by simp
  have "(of_int \<bar>n\<bar> :: rat) \<le> of_int (2 ^ 53)" using assms by (simp only: of_int_le_iff)
  also have "\<dots> = 2 powi 53" by simp
  also have "\<dots> < 2 powi 1024" by (rule p2_strict) simp
  finally show ?thesis by (simp add: rnd_Fin_iff e)
qed

lemma rnd_exact_abs: "\<bar>rnd_exact q\<bar> = rnd_exact \<bar>q\<bar>"
proof (cases "0 \<le> q")
  case True
  then show ?thesis using rnd_exact_nonneg [of q] by simp
next
  case False
  then have "0 \<le> rnd_exact (- q)" by (intro rnd_exact_nonneg) simp
  then show ?thesis using False by (simp add: rnd_exact_neg abs_if)
qed

lemma rnd_cert:
  assumes "2 powi e \<le> \<bar>q\<bar>" "\<bar>q\<bar> < 2 powi (e + 1)" "e \<le> 1022"
    and "\<bar>q / 2 powi (max e (- 1022) - 52) - of_int m\<bar> < 1 / 2 \<or>
         (\<bar>q / 2 powi (max e (- 1022) - 52) - of_int m\<bar> = 1 / 2 \<and> even m)"
    and "r = of_int m * 2 powi (max e (- 1022) - 52)"
  shows "rnd q = Fin r"
proof -
  have i: "ilog2 \<bar>q\<bar> = e" using assms(1,2) by (rule ilog2_unique)
  have u: "ulp q = 2 powi (max e (- 1022) - 52)" by (simp add: ulp_def i)
  have "rhe (q / ulp q) = m" unfolding u using assms(4) by (rule rhe_eqI)
  then have x: "rnd_exact q = r" by (simp add: rnd_exact_def u assms(5))
  have pos: "0 < \<bar>q\<bar>" using assms(1) p2_pos [of e] by linarith
  have "\<bar>rnd_exact q\<bar> \<le> 2 powi (max (ilog2 \<bar>q\<bar>) (- 1022) + 1)"
    unfolding rnd_exact_abs using pos by (rule rnd_exact_upper)
  also have "\<dots> \<le> 2 powi 1023" using assms(3) by (intro p2_mono) (simp add: i)
  also have "\<dots> < 2 powi 1024" by (intro p2_strict) simp
  finally show ?thesis using x by (simp add: rnd_Fin_iff)
qed

section \<open>Evaluation of the sample requests\<close>

text \<open>Each rounding below is checked against the two neighbouring floats by \<open>rnd_cert\<close>.\<close>

lemma lit_2_54: "lit (127 / 50) = Fin (2859785763380265 / 1125899906842624)"
  unfolding lit_def by (rule rnd_cert [where e = "1" and m = "5719571526760530"]) simp_all

lemma ev_2: "fquot (Fin 170) (Fin (2859785763380265 / 1125899906842624)) = Fin (4709719098505071 / 70368744177664)"
  unfolding fquot.simps by (rule rnd_cert [where e = "6" and m = "4709719098505071"]) simp_all

lemma lit_2_3: "lit (23 / 10) = Fin (2589569785738035 / 1125899906842624)"
  unfolding lit_def by (rule rnd_cert [where e = "1" and m = "5179139571476070"]) simp_all

lemma ev_4: "fsub (Fin (4709719098505071 / 70368744177664)) (Fin 60) = Fin (487594447845231 / 70368744177664)"
  unfolding fsub_def fneg.simps fadd.simps by (rule rnd_cert [where e = "2" and m = "7801511165523696"]) simp_all

lemma ev_5: "fmul (Fin (2589569785738035 / 1125899906842624)) (Fin (487594447845231 / 70368744177664)) = Fin (4485868920176125 / 281474976710656)"
  unfolding fmul.simps by (rule rnd_cert [where e = "3" and m = "8971737840352250"]) simp_all

lemma ev_6: "fadd (Fin 50) (Fin (4485868920176125 / 281474976710656)) = Fin (4639904438927231 / 70368744177664)"
  unfolding fadd.simps by (rule rnd_cert [where e = "6" and m = "4639904438927231"]) simp_all

lemma ev_7: "fsub (Fin 70) (Fin (4639904438927231 / 70368744177664)) = Fin (285907653509249 / 70368744177664)"
  unfolding fsub_def fneg.simps fadd.simps by (rule rnd_cert [where e = "2" and m = "4574522456147984"]) simp_all

lemma lit_0_4: "lit (2 / 5) = Fin (3602879701896397 / 9007199254740992)"
  unfolding lit_def by (rule rnd_cert [where e = "- 2" and m = "7205759403792794"]) simp_all

lemma ev_9: "fmul (Fin (3602879701896397 / 9007199254740992)) (Fin (285907653509249 / 70368744177664)) = Fin (7319235929836775 / 4503599627370496)"
  unfolding fmul.simps by (rule rnd_cert [where e = "0" and m = "7319235929836775"]) simp_all

lemma ev_10: "fadd (Fin (4639904438927231 / 70368744177664)) (Fin (7319235929836775 / 4503599627370496)) = Fin (4754267500330931 / 70368744177664)"
  unfolding fadd.simps by (rule rnd_cert [where e = "6" and m = "4754267500330931"]) simp_all

lemma lit_1_0: "lit 1 = Fin 1"
  unfolding lit_def by (rule rnd_cert [where e = "0" and m = "4503599627370496"]) simp_all

lemma ev_12: "fmul (Fin 72) (Fin (2476979795053773 / 2251799813685248)) = Fin (5573204538870989 / 70368744177664)"
  unfolding fmul.simps by (rule rnd_cert [where e = "6" and m = "5573204538870989"]) simp_all

lemma ev_13: "fmul (Fin 95) (Fin 70) = Fin 6650"
  unfolding fmul.simps by (rule rnd_cert [where e = "12" and m = "7311752324710400"]) simp_all

lemma ev_14: "fmul (Fin 6650) (Fin 1) = Fin 6650"
  unfolding fmul.simps by (rule rnd_cert [where e = "12" and m = "7311752324710400"]) simp_all

lemma ev_15: "fquot (Fin 6650) (Fin (5573204538870989 / 70368744177664)) = Fin (5908486727038707 / 70368744177664)"
  unfolding fquot.simps by (rule rnd_cert [where e = "6" and m = "5908486727038707"]) simp_all

lemma ev_16: "fmul (Fin 95) (Fin (4754267500330931 / 70368744177664)) = Fin (3528557910401863 / 549755813888)"
  unfolding fmul.simps by (rule rnd_cert [where e = "12" and m = "7057115820803726"]) simp_all

lemma ev_17: "fmul (Fin (3528557910401863 / 549755813888)) (Fin 1) = Fin (3528557910401863 / 549755813888)"
  unfolding fmul.simps by (rule rnd_cert [where e = "12" and m = "7057115820803726"]) simp_all

lemma ev_18: "fquot (Fin (3528557910401863 / 549755813888)) (Fin (5573204538870989 / 70368744177664)) = Fin (2851359927597465 / 35184372088832)"
  unfolding fquot.simps by (rule rnd_cert [where e = "6" and m = "5702719855194930"]) simp_all

lemma ev_19: "fmul (Fin 95) (Fin (4639904438927231 / 70368744177664)) = Fin (6887358151532609 / 1099511627776)"
  unfolding fmul.simps by (rule rnd_cert [where e = "12" and m = "6887358151532609"]) simp_all

lemma ev_20: "fmul (Fin (6887358151532609 / 1099511627776)) (Fin 1) = Fin (6887358151532609 / 1099511627776)"
  unfolding fmul.simps by (rule rnd_cert [where e = "12" and m = "6887358151532609"]) simp_all

lemma ev_21: "fquot (Fin (6887358151532609 / 1099511627776)) (Fin (5573204538870989 / 70368744177664)) = Fin (5565541940632411 / 70368744177664)"
  unfolding fquot.simps by (rule rnd_cert [where e = "6" and m = "5565541940632411"]) simp_all

lemma ev_22: "rhe (5908486727038707 / 70368744177664) = 84"
  by (rule rhe_eqI) simp

lemma ev_23: "rhe (2851359927597465 / 35184372088832) = 81"
  by (rule rhe_eqI) simp

lemma ev_24: "rhe (5565541940632411 / 70368744177664) = 79"
  by (rule rhe_eqI) simp

lemma lit_0_453592: "lit (56699 / 125000) = Fin (1021398381089119 / 2251799813685248)"
  unfolding lit_def by (rule rnd_cert [where e = "- 2" and m = "8171187048712952"]) simp_all

lemma ev_26: "fquot (Fin (4754267500330931 / 70368744177664)) (Fin (1021398381089119 / 2251799813685248)) = Fin (1310171778914457 / 8796093022208)"
  unfolding fquot.simps by (rule rnd_cert [where e = "7" and m = "5240687115657828"]) simp_all

lemma ev_27: "rhe (23771337501654655 / 35184372088832) = 676"
  by (rule rhe_eqI) simp

lemma ev_28: "rnd (338 / 5) = Fin (2378463553205043 / 35184372088832)"
   by (rule rnd_cert [where e = "6" and m = "4756927106410086"]) simp_all

lemma ev_29: "rhe (6550858894572285 / 4398046511104) = 1489"
  by (rule rhe_eqI) simp

lemma ev_30: "rnd (1489 / 10) = Fin (5238953004027085 / 35184372088832)"
   by (rule rnd_cert [where e = "7" and m = "5238953004027085"]) simp_all

lemma ev_31: "rhe (11892317766025215 / 17592186044416) = 676"
  by (rule rhe_eqI) simp

lemma ev_32: "rhe (26194765020135425 / 17592186044416) = 1489"
  by (rule rhe_eqI) simp

lemma ev_33: "rnd 70 = Fin 70"
   by (rule rnd_cert [where e = "6" and m = "4925812092436480"]) simp_all

lemma ev_34: "rnd 170 = Fin 170"
   by (rule rnd_cert [where e = "7" and m = "5981343255101440"]) simp_all

lemma ev_35: "rnd (2476979795053773 / 2251799813685248) = Fin (2476979795053773 / 2251799813685248)"
   by (rule rnd_cert [where e = "0" and m = "4953959590107546"]) simp_all

lemma ev_36: "rnd 95 = Fin 95"
   by (rule rnd_cert [where e = "6" and m = "6685030696878080"]) simp_all

lemma ev_37: "rnd 79 = Fin 79"
   by (rule rnd_cert [where e = "6" and m = "5559130790035456"]) simp_all

lemma ev_38: "rnd 81 = Fin 81"
   by (rule rnd_cert [where e = "6" and m = "5699868278390784"]) simp_all

lemma lit_1_1: "lit (11 / 10) = Fin (2476979795053773 / 2251799813685248)"
  unfolding lit_def by (rule rnd_cert [where e = "0" and m = "4953959590107546"]) simp_all

lemma ev_40: "fmul (Fin 110) (Fin (1021398381089119 / 2251799813685248)) = Fin (7022113869987693 / 140737488355328)"
  unfolding fmul.simps by (rule rnd_cert [where e = "5" and m = "7022113869987693"]) simp_all

lemma ev_41: "fsub (Fin 64) (Fin 60) = Fin 4"
  unfolding fsub_def fneg.simps fadd.simps by (rule rnd_cert [where e = "2" and m = "4503599627370496"]) simp_all

lemma ev_42: "fmul (Fin (2589569785738035 / 1125899906842624)) (Fin 4) = Fin (2589569785738035 / 281474976710656)"
  unfolding fmul.simps by (rule rnd_cert [where e = "3" and m = "5179139571476070"]) simp_all

lemma lit_45_5: "lit (91 / 2) = Fin (91 / 2)"
  unfolding lit_def by (rule rnd_cert [where e = "5" and m = "6403555720167424"]) simp_all

lemma ev_44: "fadd (Fin (91 / 2)) (Fin (2589569785738035 / 281474976710656)) = Fin (3849170306518221 / 70368744177664)"
  unfolding fadd.simps by (rule rnd_cert [where e = "5" and m = "7698340613036442"]) simp_all

lemma lit_0_85: "lit (17 / 20) = Fin (7656119366529843 / 9007199254740992)"
  unfolding lit_def by (rule rnd_cert [where e = "- 1" and m = "7656119366529843"]) simp_all

lemma ev_46: "fmul (Fin 72) (Fin (8106479329266893 / 9007199254740992)) = Fin (4559894622712627 / 70368744177664)"
  unfolding fmul.simps by (rule rnd_cert [where e = "6" and m = "4559894622712627"]) simp_all

lemma ev_47: "fmul (Fin 110) (Fin (7022113869987693 / 140737488355328)) = Fin (3017314553510337 / 549755813888)"
  unfolding fmul.simps by (rule rnd_cert [where e = "12" and m = "6034629107020674"]) simp_all

lemma ev_48: "fmul (Fin (3017314553510337 / 549755813888)) (Fin (7656119366529843 / 9007199254740992)) = Fin (5129434740967573 / 1099511627776)"
  unfolding fmul.simps by (rule rnd_cert [where e = "12" and m = "5129434740967573"]) simp_all

lemma ev_49: "fquot (Fin (5129434740967573 / 1099511627776)) (Fin (4559894622712627 / 70368744177664)) = Fin (5066108386140813 / 70368744177664)"
  unfolding fquot.simps by (rule rnd_cert [where e = "6" and m = "5066108386140813"]) simp_all

lemma ev_50: "fmul (Fin 110) (Fin (3849170306518221 / 70368744177664)) = Fin 6017"
  unfolding fmul.simps by (rule rnd_cert [where e = "12" and m = "6615761464328192"]) simp_all

lemma ev_51: "fmul (Fin 6017) (Fin (7656119366529843 / 9007199254740992)) = Fin (5623397244678963 / 1099511627776)"
  unfolding fmul.simps by (rule rnd_cert [where e = "12" and m = "5623397244678963"]) simp_all

lemma ev_52: "fquot (Fin (5623397244678963 / 1099511627776)) (Fin (4559894622712627 / 70368744177664)) = Fin (173561643354289 / 2199023255552)"
  unfolding fquot.simps by (rule rnd_cert [where e = "6" and m = "5553972587337248"]) simp_all

lemma ev_53: "rhe (5066108386140813 / 70368744177664) = 72"
  by (rule rhe_eqI) simp

lemma ev_54: "rhe (173561643354289 / 2199023255552) = 79"
  by (rule rhe_eqI) simp

lemma ev_55: "fquot (Fin (7022113869987693 / 140737488355328)) (Fin (1021398381089119 / 2251799813685248)) = Fin 110"
  unfolding fquot.simps by (rule rnd_cert [where e = "6" and m = "7740561859543040"]) simp_all

lemma ev_56: "rhe (35110569349938465 / 70368744177664) = 499"
  by (rule rhe_eqI) simp

lemma ev_57: "rnd (499 / 10) = Fin (7022800668930867 / 140737488355328)"
   by (rule rnd_cert [where e = "5" and m = "7022800668930867"]) simp_all

lemma ev_58: "rhe 1100 = 1100"
  by (rule rhe_eqI) simp

lemma ev_59: "rnd 110 = Fin 110"
   by (rule rnd_cert [where e = "6" and m = "7740561859543040"]) simp_all

lemma ev_60: "rhe (35114003344654335 / 70368744177664) = 499"
  by (rule rhe_eqI) simp

lemma ev_61: "rnd 64 = Fin 64"
   by (rule rnd_cert [where e = "6" and m = "4503599627370496"]) simp_all

lemma ev_62: "rnd (8106479329266893 / 9007199254740992) = Fin (8106479329266893 / 9007199254740992)"
   by (rule rnd_cert [where e = "- 1" and m = "8106479329266893"]) simp_all

lemma ev_63: "rnd 72 = Fin 72"
   by (rule rnd_cert [where e = "6" and m = "5066549580791808"]) simp_all

lemma lit_0_9: "lit (9 / 10) = Fin (8106479329266893 / 9007199254740992)"
  unfolding lit_def by (rule rnd_cert [where e = "- 1" and m = "8106479329266893"]) simp_all

lemma ev_65: "fsub (Fin 90) (Fin (4639904438927231 / 70368744177664)) = Fin (1693282537062529 / 70368744177664)"
  unfolding fsub_def fneg.simps fadd.simps by (rule rnd_cert [where e = "4" and m = "6773130148250116"]) simp_all

lemma ev_66: "fmul (Fin (3602879701896397 / 9007199254740992)) (Fin (1693282537062529 / 70368744177664)) = Fin (5418504118600093 / 562949953421312)"
  unfolding fmul.simps by (rule rnd_cert [where e = "3" and m = "5418504118600093"]) simp_all

lemma ev_67: "fadd (Fin (4639904438927231 / 70368744177664)) (Fin (5418504118600093 / 562949953421312)) = Fin (5317217453752243 / 70368744177664)"
  unfolding fadd.simps by (rule rnd_cert [where e = "6" and m = "5317217453752243"]) simp_all

lemma ev_68: "fmul (Fin 95) (Fin 90) = Fin 8550"
  unfolding fmul.simps by (rule rnd_cert [where e = "13" and m = "4700412208742400"]) simp_all

lemma ev_69: "fmul (Fin 8550) (Fin 1) = Fin 8550"
  unfolding fmul.simps by (rule rnd_cert [where e = "13" and m = "4700412208742400"]) simp_all

lemma ev_70: "fquot (Fin 8550) (Fin (5573204538870989 / 70368744177664)) = Fin (7596625791906909 / 70368744177664)"
  unfolding fquot.simps by (rule rnd_cert [where e = "6" and m = "7596625791906909"]) simp_all

lemma ev_71: "fmul (Fin 95) (Fin (5317217453752243 / 70368744177664)) = Fin (3946372328956743 / 549755813888)"
  unfolding fmul.simps by (rule rnd_cert [where e = "12" and m = "7892744657913486"]) simp_all

lemma ev_72: "fmul (Fin (3946372328956743 / 549755813888)) (Fin 1) = Fin (3946372328956743 / 549755813888)"
  unfolding fmul.simps by (rule rnd_cert [where e = "12" and m = "7892744657913486"]) simp_all

lemma ev_73: "fquot (Fin (3946372328956743 / 549755813888)) (Fin (5573204538870989 / 70368744177664)) = Fin (6377975481142211 / 70368744177664)"
  unfolding fquot.simps by (rule rnd_cert [where e = "6" and m = "6377975481142211"]) simp_all

lemma ev_74: "rhe (7596625791906909 / 70368744177664) = 108"
  by (rule rhe_eqI) simp

lemma ev_75: "rhe (6377975481142211 / 70368744177664) = 91"
  by (rule rhe_eqI) simp

lemma ev_76: "fquot (Fin (5317217453752243 / 70368744177664)) (Fin (1021398381089119 / 2251799813685248)) = Fin (183163553843275 / 1099511627776)"
  unfolding fquot.simps by (rule rnd_cert [where e = "7" and m = "5861233722984800"]) simp_all

lemma ev_77: "rhe (26586087268761215 / 35184372088832) = 756"
  by (rule rhe_eqI) simp

lemma ev_78: "rnd (378 / 5) = Fin (2659938529915699 / 35184372088832)"
   by (rule rnd_cert [where e = "6" and m = "5319877059831398"]) simp_all

lemma ev_79: "rhe (915817769216375 / 549755813888) = 1666"
  by (rule rhe_eqI) simp

lemma ev_80: "rnd (833 / 5) = Fin (5861716389999411 / 35184372088832)"
   by (rule rnd_cert [where e = "7" and m = "5861716389999411"]) simp_all

lemma ev_81: "rhe (13299692649578495 / 17592186044416) = 756"
  by (rule rhe_eqI) simp

lemma ev_82: "rhe (29308581949997055 / 17592186044416) = 1666"
  by (rule rhe_eqI) simp

lemma ev_83: "rnd 90 = Fin 90"
   by (rule rnd_cert [where e = "6" and m = "6333186975989760"]) simp_all

lemma ev_84: "rnd 91 = Fin 91"
   by (rule rnd_cert [where e = "6" and m = "6403555720167424"]) simp_all

lemma ev_85: "fsub (Fin 100) (Fin (4639904438927231 / 70368744177664)) = Fin (2396969978839169 / 70368744177664)"
  unfolding fsub_def fneg.simps fadd.simps by (rule rnd_cert [where e = "5" and m = "4793939957678338"]) simp_all

lemma ev_86: "fmul (Fin (3602879701896397 / 9007199254740992)) (Fin (2396969978839169 / 70368744177664)) = Fin (7670303932285341 / 562949953421312)"
  unfolding fmul.simps by (rule rnd_cert [where e = "3" and m = "7670303932285341"]) simp_all

lemma ev_87: "fadd (Fin (4639904438927231 / 70368744177664)) (Fin (7670303932285341 / 562949953421312)) = Fin (5598692430462899 / 70368744177664)"
  unfolding fadd.simps by (rule rnd_cert [where e = "6" and m = "5598692430462899"]) simp_all

lemma ev_88: "fmul (Fin (- 10)) (Fin 100) = Fin (- 1000)"
  unfolding fmul.simps by (rule rnd_cert [where e = "9" and m = "- 8796093022208000"]) simp_all

lemma ev_89: "fmul (Fin (- 1000)) (Fin 1) = Fin (- 1000)"
  unfolding fmul.simps by (rule rnd_cert [where e = "9" and m = "- 8796093022208000"]) simp_all

lemma ev_90: "fquot (Fin (- 1000)) (Fin (5573204538870989 / 70368744177664)) = Fin (- (3553976978669899 / 281474976710656))"
  unfolding fquot.simps by (rule rnd_cert [where e = "3" and m = "- 7107953957339798"]) simp_all

lemma ev_91: "fmul (Fin (- 10)) (Fin (5598692430462899 / 70368744177664)) = Fin (- (218698923064957 / 274877906944))"
  unfolding fmul.simps by (rule rnd_cert [where e = "9" and m = "- 6998365538078624"]) simp_all

lemma ev_92: "fmul (Fin (- (218698923064957 / 274877906944))) (Fin 1) = Fin (- (218698923064957 / 274877906944))"
  unfolding fmul.simps by (rule rnd_cert [where e = "9" and m = "- 6998365538078624"]) simp_all

lemma ev_93: "fquot (Fin (- (218698923064957 / 274877906944))) (Fin (5573204538870989 / 70368744177664)) = Fin (- (2827622439627727 / 281474976710656))"
  unfolding fquot.simps by (rule rnd_cert [where e = "3" and m = "- 5655244879255454"]) simp_all

lemma ev_94: "fmul (Fin (- 10)) (Fin (4639904438927231 / 70368744177664)) = Fin (- (5799880548659039 / 8796093022208))"
  unfolding fmul.simps by (rule rnd_cert [where e = "9" and m = "- 5799880548659039"]) simp_all

lemma ev_95: "fmul (Fin (- (5799880548659039 / 8796093022208))) (Fin 1) = Fin (- (5799880548659039 / 8796093022208))"
  unfolding fmul.simps by (rule rnd_cert [where e = "9" and m = "- 5799880548659039"]) simp_all

lemma ev_96: "fquot (Fin (- (5799880548659039 / 8796093022208))) (Fin (5573204538870989 / 70368744177664)) = Fin (- (4686772160532557 / 562949953421312))"
  unfolding fquot.simps by (rule rnd_cert [where e = "3" and m = "- 4686772160532557"]) simp_all

lemma ev_97: "rhe (- (3553976978669899 / 281474976710656)) = - 13"
  by (rule rhe_eqI) simp

lemma ev_98: "rhe (- (2827622439627727 / 281474976710656)) = - 10"
  by (rule rhe_eqI) simp

lemma ev_99: "rhe (- (4686772160532557 / 562949953421312)) = - 8"
  by (rule rhe_eqI) simp

lemma ev_100: "fquot (Fin (5598692430462899 / 70368744177664)) (Fin (1021398381089119 / 2251799813685248)) = Fin (3085753513324143 / 17592186044416)"
  unfolding fquot.simps by (rule rnd_cert [where e = "7" and m = "6171507026648286"]) simp_all

lemma ev_101: "rhe (27993462152314495 / 35184372088832) = 796"
  by (rule rhe_eqI) simp

lemma ev_102: "rnd (398 / 5) = Fin (2800676018271027 / 35184372088832)"
   by (rule rnd_cert [where e = "6" and m = "5601352036542054"]) simp_all

lemma ev_103: "rhe (15428767566620715 / 8796093022208) = 1754"
  by (rule rhe_eqI) simp

lemma ev_104: "rnd (877 / 5) = Fin (6171338864381133 / 35184372088832)"
   by (rule rnd_cert [where e = "7" and m = "6171338864381133"]) simp_all

lemma ev_105: "rhe (14003380091355135 / 17592186044416) = 796"
  by (rule rhe_eqI) simp

lemma ev_106: "rhe (30856694321905665 / 17592186044416) = 1754"
  by (rule rhe_eqI) simp

lemma ev_107: "rnd 100 = Fin 100"
   by (rule rnd_cert [where e = "6" and m = "7036874417766400"]) simp_all

lemma ev_108: "rnd (- 10) = Fin (- 10)"
   by (rule rnd_cert [where e = "3" and m = "- 5629499534213120"]) simp_all

lemma ev_109: "rnd (- 8) = Fin (- 8)"
   by (rule rnd_cert [where e = "3" and m = "- 4503599627370496"]) simp_all

lemma ev_110: "fmul (Fin 100) (Fin (1021398381089119 / 2251799813685248)) = Fin (3191869940903497 / 70368744177664)"
  unfolding fmul.simps by (rule rnd_cert [where e = "5" and m = "6383739881806994"]) simp_all

lemma ev_111: "fsub (Fin 30) (Fin 60) = Fin (- 30)"
  unfolding fsub_def fneg.simps fadd.simps by (rule rnd_cert [where e = "4" and m = "- 8444249301319680"]) simp_all

lemma ev_112: "fmul (Fin (2589569785738035 / 1125899906842624)) (Fin (- 30)) = Fin (- 69)"
  unfolding fmul.simps by (rule rnd_cert [where e = "6" and m = "- 4855443348258816"]) simp_all

lemma ev_113: "fadd (Fin 50) (Fin (- 69)) = Fin (- 19)"
  unfolding fadd.simps by (rule rnd_cert [where e = "4" and m = "- 5348024557502464"]) simp_all

lemma ev_114: "fsub (Fin (3191869940903497 / 70368744177664)) (Fin (- 19)) = Fin (4528876080279113 / 70368744177664)"
  unfolding fsub_def fneg.simps fadd.simps by (rule rnd_cert [where e = "6" and m = "4528876080279113"]) simp_all

lemma ev_115: "fmul (Fin (3602879701896397 / 9007199254740992)) (Fin (4528876080279113 / 70368744177664)) = Fin (7246201728446581 / 281474976710656)"
  unfolding fmul.simps by (rule rnd_cert [where e = "4" and m = "7246201728446581"]) simp_all

lemma ev_116: "fadd (Fin (- 19)) (Fin (7246201728446581 / 281474976710656)) = Fin (1898177170944117 / 281474976710656)"
  unfolding fadd.simps by (rule rnd_cert [where e = "2" and m = "7592708683776468"]) simp_all

lemma ev_117: "fmul (Fin 95) (Fin (3191869940903497 / 70368744177664)) = Fin (1184482985882157 / 274877906944)"
  unfolding fmul.simps by (rule rnd_cert [where e = "12" and m = "4737931943528628"]) simp_all

lemma ev_118: "fmul (Fin (1184482985882157 / 274877906944)) (Fin 1) = Fin (1184482985882157 / 274877906944)"
  unfolding fmul.simps by (rule rnd_cert [where e = "12" and m = "4737931943528628"]) simp_all

lemma ev_119: "fquot (Fin (1184482985882157 / 274877906944)) (Fin (5573204538870989 / 70368744177664)) = Fin (3828631873558487 / 70368744177664)"
  unfolding fquot.simps by (rule rnd_cert [where e = "5" and m = "7657263747116974"]) simp_all

lemma ev_120: "fmul (Fin 95) (Fin (1898177170944117 / 281474976710656)) = Fin (5635213476240347 / 8796093022208)"
  unfolding fmul.simps by (rule rnd_cert [where e = "9" and m = "5635213476240347"]) simp_all

lemma ev_121: "fmul (Fin (5635213476240347 / 8796093022208)) (Fin 1) = Fin (5635213476240347 / 8796093022208)"
  unfolding fmul.simps by (rule rnd_cert [where e = "9" and m = "5635213476240347"]) simp_all

lemma ev_122: "fquot (Fin (5635213476240347 / 8796093022208)) (Fin (5573204538870989 / 70368744177664)) = Fin (4553707859588159 / 562949953421312)"
  unfolding fquot.simps by (rule rnd_cert [where e = "3" and m = "4553707859588159"]) simp_all

lemma ev_123: "fmul (Fin 95) (Fin (- 19)) = Fin (- 1805)"
  unfolding fmul.simps by (rule rnd_cert [where e = "10" and m = "- 7938473952542720"]) simp_all

lemma ev_124: "fmul (Fin (- 1805)) (Fin 1) = Fin (- 1805)"
  unfolding fmul.simps by (rule rnd_cert [where e = "10" and m = "- 7938473952542720"]) simp_all

lemma ev_125: "fquot (Fin (- 1805)) (Fin (5573204538870989 / 70368744177664)) = Fin (- (6414928446499167 / 281474976710656))"
  unfolding fquot.simps by (rule rnd_cert [where e = "4" and m = "- 6414928446499167"]) simp_all

lemma ev_126: "rhe (3828631873558487 / 70368744177664) = 54"
  by (rule rhe_eqI) simp

lemma ev_127: "rhe (4553707859588159 / 562949953421312) = 8"
  by (rule rhe_eqI) simp

lemma ev_128: "rhe (- (6414928446499167 / 281474976710656)) = - 23"
  by (rule rhe_eqI) simp

lemma ev_129: "fquot (Fin (1898177170944117 / 281474976710656)) (Fin (1021398381089119 / 2251799813685248)) = Fin (4184767744898757 / 281474976710656)"
  unfolding fquot.simps by (rule rnd_cert [where e = "3" and m = "8369535489797514"]) simp_all

lemma ev_130: "rhe (9490885854720585 / 140737488355328) = 67"
  by (rule rhe_eqI) simp

lemma ev_131: "rnd (67 / 10) = Fin (7543529375845581 / 1125899906842624)"
   by (rule rnd_cert [where e = "2" and m = "7543529375845581"]) simp_all

lemma ev_132: "rhe (20923838724493785 / 140737488355328) = 149"
  by (rule rhe_eqI) simp

lemma ev_133: "rnd (149 / 10) = Fin (8387954305977549 / 562949953421312)"
   by (rule rnd_cert [where e = "3" and m = "8387954305977549"]) simp_all

lemma ev_134: "rhe (37717646879227905 / 562949953421312) = 67"
  by (rule rhe_eqI) simp

lemma ev_135: "rhe (41939771529887745 / 281474976710656) = 149"
  by (rule rhe_eqI) simp

lemma ev_136: "rnd 30 = Fin 30"
   by (rule rnd_cert [where e = "4" and m = "8444249301319680"]) simp_all

lemma ev_137: "rnd (- 23) = Fin (- 23)"
   by (rule rnd_cert [where e = "4" and m = "- 6473924464345088"]) simp_all

lemma ev_138: "rnd 8 = Fin 8"
   by (rule rnd_cert [where e = "3" and m = "4503599627370496"]) simp_all

lemma ev_139: "fmul (Fin (2206763817411543 / 35184372088832)) (Fin (1021398381089119 / 2251799813685248)) = Fin (8007763307738693 / 281474976710656)"
  unfolding fmul.simps by (rule rnd_cert [where e = "4" and m = "8007763307738693"]) simp_all

lemma ev_140: "fsub (Fin (8007763307738693 / 281474976710656)) (Fin (- 19)) = Fin (3338946966310289 / 70368744177664)"
  unfolding fsub_def fneg.simps fadd.simps by (rule rnd_cert [where e = "5" and m = "6677893932620578"]) simp_all

lemma ev_141: "fmul (Fin (3602879701896397 / 9007199254740992)) (Fin (3338946966310289 / 70368744177664)) = Fin (5342315146096463 / 281474976710656)"
  unfolding fmul.simps by (rule rnd_cert [where e = "4" and m = "5342315146096463"]) simp_all

lemma ev_142: "fadd (Fin (- 19)) (Fin (5342315146096463 / 281474976710656)) = Fin (- (5709411406001 / 281474976710656))"
  unfolding fadd.simps by (rule rnd_cert [where e = "- 6" and m = "- 5846437279745024"]) simp_all

lemma ev_143: "fmul (Fin 95) (Fin (8007763307738693 / 281474976710656)) = Fin (5943261829962311 / 2199023255552)"
  unfolding fmul.simps by (rule rnd_cert [where e = "11" and m = "5943261829962311"]) simp_all

lemma ev_144: "fmul (Fin (5943261829962311 / 2199023255552)) (Fin 1) = Fin (5943261829962311 / 2199023255552)"
  unfolding fmul.simps by (rule rnd_cert [where e = "11" and m = "5943261829962311"]) simp_all

lemma ev_145: "fquot (Fin (5943261829962311 / 2199023255552)) (Fin (5573204538870989 / 70368744177664)) = Fin (2401317911095883 / 70368744177664)"
  unfolding fquot.simps by (rule rnd_cert [where e = "5" and m = "4802635822191766"]) simp_all

lemma ev_146: "fmul (Fin 95) (Fin (- (5709411406001 / 281474976710656))) = Fin (- (542394083570095 / 281474976710656))"
  unfolding fmul.simps by (rule rnd_cert [where e = "0" and m = "- 8678305337121520"]) simp_all

lemma ev_147: "fmul (Fin (- (542394083570095 / 281474976710656))) (Fin 1) = Fin (- (542394083570095 / 281474976710656))"
  unfolding fmul.simps by (rule rnd_cert [where e = "0" and m = "- 8678305337121520"]) simp_all

lemma ev_148: "fquot (Fin (- (542394083570095 / 281474976710656))) (Fin (5573204538870989 / 70368744177664)) = Fin (- (7012771989593147 / 288230376151711744))"
  unfolding fquot.simps by (rule rnd_cert [where e = "- 6" and m = "- 7012771989593147"]) simp_all

lemma ev_149: "rhe (2401317911095883 / 70368744177664) = 34"
  by (rule rhe_eqI) simp

lemma ev_150: "rhe (- (7012771989593147 / 288230376151711744)) = 0"
  by (rule rhe_eqI) simp

lemma ev_151: "fquot (Fin (- (5709411406001 / 281474976710656))) (Fin (1021398381089119 / 2251799813685248)) = Fin (- (6444599198999347 / 144115188075855872))"
  unfolding fquot.simps by (rule rnd_cert [where e = "- 5" and m = "- 6444599198999347"]) simp_all

lemma ev_152: "rhe (- (28547057030005 / 140737488355328)) = 0"
  by (rule rhe_eqI) simp

lemma ev_153: "rnd 0 = Fin 0"
  by simp

lemma ev_154: "rhe (- (32222995994996735 / 72057594037927936)) = 0"
  by (rule rhe_eqI) simp

lemma ev_155: "rnd (2206763817411543 / 35184372088832) = Fin (2206763817411543 / 35184372088832)"
   by (rule rnd_cert [where e = "5" and m = "8827055269646172"]) simp_all

lemma lit_62_72: "lit (1568 / 25) = Fin (2206763817411543 / 35184372088832)"
  unfolding lit_def by (rule rnd_cert [where e = "5" and m = "8827055269646172"]) simp_all

lemma ev_157: "fmul (Fin (1 / 202402253307310618352495346718917307049556649764142118356901358027430339567995346891960383701437124495187077864316811911389808737385793476867013399940738509921517424276566361364466907742093216341239767678472745068562007483424692698618103355649159556340810056512358769552333414615230502532186327508646006263307707741093494784)) (Fin (1021398381089119 / 2251799813685248)) = Fin 0"
  unfolding fmul.simps by (rule rnd_cert [where e = "- 1076" and m = "0"]) simp_all

lemma ev_158: "fsub (Fin 67) (Fin 60) = Fin 7"
  unfolding fsub_def fneg.simps fadd.simps by (rule rnd_cert [where e = "2" and m = "7881299347898368"]) simp_all

lemma ev_159: "fmul (Fin (2589569785738035 / 1125899906842624)) (Fin 7) = Fin (4531747125041561 / 281474976710656)"
  unfolding fmul.simps by (rule rnd_cert [where e = "4" and m = "4531747125041561"]) simp_all

lemma ev_160: "fadd (Fin 50) (Fin (4531747125041561 / 281474976710656)) = Fin (2325686995071795 / 35184372088832)"
  unfolding fadd.simps by (rule rnd_cert [where e = "6" and m = "4651373990143590"]) simp_all

lemma ev_161: "fmul (Fin 95) (Fin 0) = Fin 0"
  by (simp add: fmul.simps)

lemma ev_162: "fmul (Fin 0) (Fin 1) = Fin 0"
  by (simp add: fmul.simps)

lemma ev_163: "fquot (Fin 0) (Fin (5573204538870989 / 70368744177664)) = Fin 0"
  by (simp add: fquot.simps)

lemma ev_164: "fmul (Fin 95) (Fin (2325686995071795 / 35184372088832)) = Fin (6904383266619391 / 1099511627776)"
  unfolding fmul.simps by (rule rnd_cert [where e = "12" and m = "6904383266619391"]) simp_all

lemma ev_165: "fmul (Fin (6904383266619391 / 1099511627776)) (Fin 1) = Fin (6904383266619391 / 1099511627776)"
  unfolding fmul.simps by (rule rnd_cert [where e = "12" and m = "6904383266619391"]) simp_all

lemma ev_166: "fquot (Fin (6904383266619391 / 1099511627776)) (Fin (5573204538870989 / 70368744177664)) = Fin (5579299609389407 / 70368744177664)"
  unfolding fquot.simps by (rule rnd_cert [where e = "6" and m = "5579299609389407"]) simp_all

lemma ev_167: "rhe 0 = 0"
  by (rule rhe_eqI) simp

lemma ev_168: "rhe (5579299609389407 / 70368744177664) = 79"
  by (rule rhe_eqI) simp

lemma ev_169: "fquot (Fin 0) (Fin (1021398381089119 / 2251799813685248)) = Fin 0"
  by (simp add: fquot.simps)

lemma ev_170: "rnd (1 / 202402253307310618352495346718917307049556649764142118356901358027430339567995346891960383701437124495187077864316811911389808737385793476867013399940738509921517424276566361364466907742093216341239767678472745068562007483424692698618103355649159556340810056512358769552333414615230502532186327508646006263307707741093494784) = Fin (1 / 202402253307310618352495346718917307049556649764142118356901358027430339567995346891960383701437124495187077864316811911389808737385793476867013399940738509921517424276566361364466907742093216341239767678472745068562007483424692698618103355649159556340810056512358769552333414615230502532186327508646006263307707741093494784)"
   by (rule rnd_cert [where e = "- 1074" and m = "1"]) simp_all

lemma ev_171: "rnd 67 = Fin 67"
   by (rule rnd_cert [where e = "6" and m = "4714705859903488"]) simp_all

lemma ev_172: "fquot (Fin 1) (Fin (2859785763380265 / 1125899906842624)) = Fin (1773070719437203 / 4503599627370496)"
  unfolding fquot.simps by (rule rnd_cert [where e = "- 2" and m = "7092282877748812"]) simp_all

lemma ev_173: "fmul (Fin 170) (Fin (1773070719437203 / 4503599627370496)) = Fin (2354859549252535 / 35184372088832)"
  unfolding fmul.simps by (rule rnd_cert [where e = "6" and m = "4709719098505070"]) simp_all

lemmas ev =
  lit_2_54 ev_2 lit_2_3 ev_4 ev_5 ev_6 ev_7 lit_0_4 ev_9 ev_10
  lit_1_0 ev_12 ev_13 ev_14 ev_15 ev_16 ev_17 ev_18 ev_19 ev_20
  ev_21 ev_22 ev_23 ev_24 lit_0_453592 ev_26 ev_27 ev_28 ev_29 ev_30
  ev_31 ev_32 ev_33 ev_34 ev_35 ev_36 ev_37 ev_38 lit_1_1 ev_40
  ev_41 ev_42 lit_45_5 ev_44 lit_0_85 ev_46 ev_47 ev_48 ev_49 ev_50
  ev_51 ev_52 ev_53 ev_54 ev_55 ev_56 ev_57 ev_58 ev_59 ev_60
  ev_61 ev_62 ev_63 lit_0_9 ev_65 ev_66 ev_67 ev_68 ev_69 ev_70
  ev_71 ev_72 ev_73 ev_74 ev_75 ev_76 ev_77 ev_78 ev_79 ev_80
  ev_81 ev_82 ev_83 ev_84 ev_85 ev_86 ev_87 ev_88 ev_89 ev_90
  ev_91 ev_92 ev_93 ev_94 ev_95 ev_96 ev_97 ev_98 ev_99 ev_100
  ev_101 ev_102 ev_103 ev_104 ev_105 ev_106 ev_107 ev_108 ev_109 ev_110
  ev_111 ev_112 ev_113 ev_114 ev_115 ev_116 ev_117 ev_118 ev_119 ev_120
  ev_121 ev_122 ev_123 ev_124 ev_125 ev_126 ev_127 ev_128 ev_129 ev_130
  ev_131 ev_132 ev_133 ev_134 ev_135 ev_136 ev_137 ev_138 ev_139 ev_140
  ev_141 ev_142 ev_143 ev_144 ev_145 ev_146 ev_147 ev_148 ev_149 ev_150
  ev_151 ev_152 ev_153 ev_154 ev_155 lit_62_72 ev_157 ev_158 ev_159 ev_160
  ev_161 ev_162 ev_163 ev_164 ev_165 ev_166 ev_167 ev_168 ev_169 ev_170
  ev_171 ev_172 ev_173

lemma weights_request_metric: "crcl_weights request_metric = Inr request_metric_weights"
  by (simp add: crcl_weights_def request_metric_def request_metric_def request_metric_weights_def calculate_ibw_def
        py_truediv_def ev del: fadd.simps fmul.simps fquot.simps)

lemma values_request_metric: "crcl_values request_metric request_metric_weights = Inr request_metric_values"
  by (simp add: crcl_values_def request_metric_def request_metric_def request_metric_weights_def request_metric_values_def
        py_truediv_def float_of_int_def fmt_1f_int_def str_nat.simps digit_char_def ev
        del: fadd.simps fmul.simps fquot.simps)

lemma output_request_metric:
  "calculate_crcl repr request_metric =
     Inr \<lparr>original_crcl = ''84 mL/min'' @ [CHR 0x0A] @ ''Creatinine clearance, original Cockcroft-Gault'',
       modified_crcl = ''81 mL/min'' @ [CHR 0x0A] @
         ''Creatinine clearance modified for overweight patient, using adjusted body weight of '' @
         repr (False, Fin (2378463553205043 / 35184372088832)) @ '' kg ('' @ repr (False, Fin (5238953004027085 / 35184372088832)) @ '' lbs).'',
       crcl_range = ''79.0-81.0 mL/min mL/min''\<rparr>"
  unfolding calculate_crcl_def weights_request_metric rbind_Inr values_request_metric
  by (simp add: request_metric_weights_def request_metric_values_def
        py_truediv_def str_int_def str_nat.simps digit_char_def ev
        del: fadd.simps fmul.simps fquot.simps)

lemma validated_request_metric: "validated request_metric"
  by (simp add: validated_def gt0_def is_float_def request_metric_def request_metric_def ev)

lemma weights_request_imperial: "crcl_weights request_imperial = Inr request_imperial_weights"
  by (simp add: crcl_weights_def request_imperial_def request_metric_def request_imperial_weights_def calculate_ibw_def
        py_truediv_def ev del: fadd.simps fmul.simps fquot.simps)

lemma values_request_imperial: "crcl_values request_imperial request_imperial_weights = Inr request_imperial_values"
  by (simp add: crcl_values_def request_imperial_def request_metric_def request_imperial_weights_def request_imperial_values_def
        py_truediv_def float_of_int_def fmt_1f_int_def str_nat.simps digit_char_def ev
        del: fadd.simps fmul.simps fquot.simps)

lemma output_request_imperial:
  "calculate_crcl repr request_imperial =
     Inr \<lparr>original_crcl = ''72 mL/min'' @ [CHR 0x0A] @ ''Creatinine clearance, original Cockcroft-Gault'',
       modified_crcl = ''72 mL/min'' @ [CHR 0x0A] @
         ''Creatinine clearance modified for overweight patient, using adjusted body weight of '' @
         repr (False, Fin (7022800668930867 / 140737488355328)) @ '' kg ('' @ repr (False, Fin 110) @ '' lbs).'',
       crcl_range = ''72.0-79.0 mL/min mL/min''\<rparr>"
  unfolding calculate_crcl_def weights_request_imperial rbind_Inr values_request_imperial
  by (simp add: request_imperial_weights_def request_imperial_values_def
        py_truediv_def str_int_def str_nat.simps digit_char_def ev
        del: fadd.simps fmul.simps fquot.simps)

lemma validated_request_imperial: "validated request_imperial"
  by (simp add: validated_def gt0_def is_float_def request_imperial_def request_metric_def ev)

lemma weights_request_heavier: "crcl_weights request_heavier = Inr request_heavier_weights"
  by (simp add: crcl_weights_def request_heavier_def request_metric_def request_heavier_weights_def calculate_ibw_def
        py_truediv_def ev del: fadd.simps fmul.simps fquot.simps)

lemma values_request_heavier: "crcl_values request_heavier request_heavier_weights = Inr request_heavier_values"
  by (simp add: crcl_values_def request_heavier_def request_metric_def request_heavier_weights_def request_heavier_values_def
        py_truediv_def float_of_int_def fmt_1f_int_def str_nat.simps digit_char_def ev
        del: fadd.simps fmul.simps fquot.simps)

lemma output_request_heavier:
  "calculate_crcl repr request_heavier =
     Inr \<lparr>original_crcl = ''108 mL/min'' @ [CHR 0x0A] @ ''Creatinine clearance, original Cockcroft-Gault'',
       modified_crcl = ''91 mL/min'' @ [CHR 0x0A] @
         ''Creatinine clearance modified for overweight patient, using adjusted body weight of '' @
         repr (False, Fin (2659938529915699 / 35184372088832)) @ '' kg ('' @ repr (False, Fin (5861716389999411 / 35184372088832)) @ '' lbs).'',
       crcl_range = ''79.0-91.0 mL/min mL/min''\<rparr>"
  unfolding calculate_crcl_def weights_request_heavier rbind_Inr values_request_heavier
  by (simp add: request_heavier_weights_def request_heavier_values_def
        py_truediv_def str_int_def str_nat.simps digit_char_def ev
        del: fadd.simps fmul.simps fquot.simps)

lemma validated_request_heavier: "validated request_heavier"
  by (simp add: validated_def gt0_def is_float_def request_heavier_def request_metric_def ev)

lemma weights_request_aged: "crcl_weights request_aged = Inr request_aged_weights"
  by (simp add: crcl_weights_def request_aged_def request_metric_def request_aged_weights_def calculate_ibw_def
        py_truediv_def ev del: fadd.simps fmul.simps fquot.simps)

lemma values_request_aged: "crcl_values request_aged request_aged_weights = Inr request_aged_values"
  by (simp add: crcl_values_def request_aged_def request_metric_def request_aged_weights_def request_aged_values_def
        py_truediv_def float_of_int_def fmt_1f_int_def str_nat.simps digit_char_def ev
        del: fadd.simps fmul.simps fquot.simps)

lemma output_request_aged:
  "calculate_crcl repr request_aged =
     Inr \<lparr>original_crcl = ''-13 mL/min'' @ [CHR 0x0A] @ ''Creatinine clearance, original Cockcroft-Gault'',
       modified_crcl = ''-10 mL/min'' @ [CHR 0x0A] @
         ''Creatinine clearance modified for overweight patient, using adjusted body weight of '' @
         repr (False, Fin (2800676018271027 / 35184372088832)) @ '' kg ('' @ repr (False, Fin (6171338864381133 / 35184372088832)) @ '' lbs).'',
       crcl_range = ''-10.0--8.0 mL/min mL/min''\<rparr>"
  unfolding calculate_crcl_def weights_request_aged rbind_Inr values_request_aged
  by (simp add: request_aged_weights_def request_aged_values_def
        py_truediv_def str_int_def str_nat.simps digit_char_def ev
        del: fadd.simps fmul.simps fquot.simps)

lemma validated_request_aged: "validated request_aged"
  by (simp add: validated_def gt0_def is_float_def request_aged_def request_metric_def ev)

lemma weights_request_short: "crcl_weights request_short = Inr request_short_weights"
  by (simp add: crcl_weights_def request_short_def request_metric_def request_short_weights_def calculate_ibw_def
        py_truediv_def ev del: fadd.simps fmul.simps fquot.simps)

lemma values_request_short: "crcl_values request_short request_short_weights = Inr request_short_values"
  by (simp add: crcl_values_def request_short_def request_metric_def request_short_weights_def request_short_values_def
        py_truediv_def float_of_int_def fmt_1f_int_def str_nat.simps digit_char_def ev
        del: fadd.simps fmul.simps fquot.simps)

lemma output_request_short:
  "calculate_crcl repr request_short =
     Inr \<lparr>original_crcl = ''54 mL/min'' @ [CHR 0x0A] @ ''Creatinine clearance, original Cockcroft-Gault'',
       modified_crcl = ''8 mL/min'' @ [CHR 0x0A] @
         ''Creatinine clearance modified for overweight patient, using adjusted body weight of '' @
         repr (False, Fin (7543529375845581 / 1125899906842624)) @ '' kg ('' @ repr (False, Fin (8387954305977549 / 562949953421312)) @ '' lbs).'',
       crcl_range = ''-23.0-8.0 mL/min mL/min''\<rparr>"
  unfolding calculate_crcl_def weights_request_short rbind_Inr values_request_short
  by (simp add: request_short_weights_def request_short_values_def
        py_truediv_def str_int_def str_nat.simps digit_char_def ev
        del: fadd.simps fmul.simps fquot.simps)

lemma validated_request_short: "validated request_short"
  by (simp add: validated_def gt0_def is_float_def request_short_def request_metric_def ev)

lemma weights_request_light: "crcl_weights request_light = Inr request_light_weights"
  by (simp add: crcl_weights_def request_light_def request_metric_def request_light_weights_def calculate_ibw_def
        py_truediv_def ev del: fadd.simps fmul.simps fquot.simps)

lemma values_request_light: "crcl_values request_light request_light_weights = Inr request_light_values"
  by (simp add: crcl_values_def request_light_def request_metric_def request_light_weights_def request_light_values_def
        py_truediv_def float_of_int_def fmt_1f_int_def str_nat.simps digit_char_def ev
        del: fadd.simps fmul.simps fquot.simps)

lemma output_request_light:
  "calculate_crcl repr request_light =
     Inr \<lparr>original_crcl = ''34 mL/min'' @ [CHR 0x0A] @ ''Creatinine clearance, original Cockcroft-Gault'',
       modified_crcl = ''0 mL/min'' @ [CHR 0x0A] @
         ''Creatinine clearance modified for overweight patient, using adjusted body weight of '' @
         repr (True, Fin 0) @ '' kg ('' @ repr (True, Fin 0) @ '' lbs).'',
       crcl_range = ''-23.0-0.0 mL/min mL/min''\<rparr>"
  unfolding calculate_crcl_def weights_request_light rbind_Inr values_request_light
  by (simp add: request_light_weights_def request_light_values_def
        py_truediv_def str_int_def str_nat.simps digit_char_def ev
        del: fadd.simps fmul.simps fquot.simps)

lemma validated_request_light: "validated request_light"
  by (simp add: validated_def gt0_def is_float_def request_light_def request_metric_def ev)

lemma weights_request_least: "crcl_weights request_least = Inr request_least_weights"
  by (simp add: crcl_weights_def request_least_def request_metric_def request_least_weights_def calculate_ibw_def
        py_truediv_def ev del: fadd.simps fmul.simps fquot.simps)

lemma values_request_least: "crcl_values request_least request_least_weights = Inr request_least_values"
  by (simp add: crcl_values_def request_least_def request_metric_def request_least_weights_def request_least_values_def
        py_truediv_def float_of_int_def fmt_1f_int_def str_nat.simps digit_char_def ev
        del: fadd.simps fmul.simps fquot.simps)

lemma output_request_least:
  "calculate_crcl repr request_least =
     Inr \<lparr>original_crcl = ''0 mL/min'' @ [CHR 0x0A] @ ''Creatinine clearance, original Cockcroft-Gault'',
       modified_crcl = ''0 mL/min'' @ [CHR 0x0A] @
         ''Creatinine clearance modified for overweight patient, using adjusted body weight of '' @
         repr (False, Fin 0) @ '' kg ('' @ repr (False, Fin 0) @ '' lbs).'',
       crcl_range = ''0.0-79.0 mL/min mL/min''\<rparr>"
  unfolding calculate_crcl_def weights_request_least rbind_Inr values_request_least
  by (simp add: request_least_weights_def request_least_values_def
        py_truediv_def str_int_def str_nat.simps digit_char_def ev
        del: fadd.simps fmul.simps fquot.simps)

lemma validated_request_least: "validated request_least"
  by (simp add: validated_def gt0_def is_float_def request_least_def request_metric_def ev)

section \<open>The operations of the calculator\<close>

declare str_nat.simps [simp del]

lemma fmul_Fin_D: "fmul x y = Fin r \<Longrightarrow> \<exists>a b. x = Fin a \<and> y = Fin b \<and> rnd (a * b) = Fin r"
  by (cases x; cases y) (auto simp: inf_times_def split: if_splits)

lemma fadd_Fin_D: "fadd x y = Fin r \<Longrightarrow> \<exists>a b. x = Fin a \<and> y = Fin b \<and> rnd (a + b) = Fin r"
  by (cases x; cases y) auto

lemma fsub_Fin_D: "fsub x y = Fin r \<Longrightarrow> \<exists>a b. x = Fin a \<and> y = Fin b \<and> rnd (a - b) = Fin r"
  unfolding fsub_def by (cases x; cases y) auto

lemma fquot_Fin_D:
  "fquot x y = Fin r \<Longrightarrow>
     (\<exists>a b. x = Fin a \<and> y = Fin b \<and> rnd (a / b) = Fin r) \<or>
     (\<exists>a. x = Fin a \<and> (y = PInf \<or> y = NInf) \<and> r = 0)"
  by (cases x; cases y) (auto split: if_splits)

lemma fquot_is_float: "fquot x y = Fin r \<Longrightarrow> rnd r = Fin r"
  by (auto dest!: fquot_Fin_D intro: rnd_idem)

lemma py_round_Inr_D: "py_round x = Inr n \<Longrightarrow> \<exists>q. x = Fin q \<and> n = rhe q"
  by (cases x) auto

lemma py_truediv_Inr_D: "py_truediv x y = Inr z \<Longrightarrow> y \<noteq> Fin 0 \<and> z = fquot x y"
  by (auto simp: py_truediv_def split: if_splits)

lemma crcl_weights_eq:
  "crcl_weights d = Inr \<lparr>
     weight_in_kg = (if unit_system d = ''imperial'' then fmul (weight d) (lit 0.453592) else weight d),
     height_in_inches = (if unit_system d = ''imperial'' then height d else fquot (height d) (lit 2.54)),
     ibw = calculate_ibw (if unit_system d = ''imperial'' then height d else fquot (height d) (lit 2.54)) (sex d),
     abw = (let w = (if unit_system d = ''imperial'' then fmul (weight d) (lit 0.453592) else weight d);
                i = calculate_ibw (if unit_system d = ''imperial'' then height d else fquot (height d) (lit 2.54)) (sex d)
            in if fgt w i then fadd i (fmul (lit 0.4) (fsub w i)) else w)\<rparr>"
  by (simp add: crcl_weights_def py_truediv_def lit_2_54 Let_def)

lemma crcl_values_Inr_D:
  assumes "crcl_values d b = Inr c"
  shows "\<exists>k. float_of_int (140 - age d) = Inr k \<and>
           fmul (Fin 72) (serum_creatinine d) \<noteq> Fin 0 \<and>
           sex_factor c = (if sex d = ''female'' then lit 0.85 else lit 1.0) \<and>
           original_crcl_raw c =
             fquot (fmul (fmul k (weight_in_kg b)) (sex_factor c)) (fmul (Fin 72) (serum_creatinine d)) \<and>
           modified_crcl_raw c =
             fquot (fmul (fmul k (abw b)) (sex_factor c)) (fmul (Fin 72) (serum_creatinine d)) \<and>
           crcl_using_ibw_raw c =
             fquot (fmul (fmul k (ibw b)) (sex_factor c)) (fmul (Fin 72) (serum_creatinine d)) \<and>
           py_round (original_crcl_raw c) = Inr (original_crcl_rounded c) \<and>
           py_round (modified_crcl_raw c) = Inr (modified_crcl_rounded c) \<and>
           py_round (crcl_using_ibw_raw c) = Inr (crcl_using_ibw_rounded c) \<and>
           (\<exists>lo hi.
              fmt_1f_int (min (crcl_using_ibw_rounded c) (modified_crcl_rounded c)) = Inr lo \<and>
              fmt_1f_int (max (crcl_using_ibw_rounded c) (modified_crcl_rounded c)) = Inr hi \<and>
              range_text c = lo @ ''-'' @ hi @ '' mL/min'')"
  using assms unfolding crcl_values_def Let_def rbind_Inr_iff
  by (auto dest!: py_truediv_Inr_D)

subsection \<open>Rounded floats under the format \<open>.1f\<close>\<close>

lemma ilog2_ge:
  assumes "2 powi k \<le> q"
  shows "k \<le> ilog2 q"
proof (rule ccontr)
  assume "\<not> k \<le> ilog2 q"
  then have "(2::rat) powi (ilog2 q + 1) \<le> 2 powi k" by (intro p2_mono) simp
  moreover have "0 < q" using assms p2_pos [of k] by linarith
  ultimately show False using ilog2_bounds [of q] assms by linarith
qed

lemma float_integral:
  assumes "rnd q = Fin q" "2 powi 52 \<le> \<bar>q\<bar>"
  shows "\<exists>z. q = of_int z"
proof -
  define j where "j = max (ilog2 \<bar>q\<bar>) (- 1022) - 52"
  have "52 \<le> ilog2 \<bar>q\<bar>" using assms(2) by (rule ilog2_ge)
  then have j: "0 \<le> j" by (simp add: j_def)
  have "q = rnd_exact q" using assms(1) by (simp add: rnd_Fin_iff)
  also have "\<dots> = of_int (rhe (q / ulp q)) * 2 powi j"
    by (simp add: rnd_exact_def ulp_def j_def)
  also have "\<dots> = of_int (rhe (q / ulp q) * 2 ^ nat j)"
    using j by (simp add: p2_nat)
  finally show ?thesis ..
qed

lemma float_of_int_rhe:
  assumes "rnd q = Fin q"
  shows "float_of_int (rhe q) = Inr (Fin (of_int (rhe q)))"
proof (cases "\<bar>q\<bar> < 2 powi 52")
  case True
  then have "q \<le> of_int (2 ^ 52)" "of_int (- (2 ^ 52)) \<le> q" by simp_all
  then have "rhe q \<le> 2 ^ 52" "- (2 ^ 52) \<le> rhe q"
    using rhe_le_int [of q "2 ^ 52"] rhe_ge_int [of "- (2 ^ 52)" q] by blast+
  then have "\<bar>rhe q\<bar> \<le> 2 ^ 53" by simp
  then show ?thesis by (simp add: float_of_int_def rnd_of_int)
next
  case False
  then have "2 powi 52 \<le> \<bar>q\<bar>" by simp
  with assms obtain z where z: "q = of_int z" using float_integral by blast
  then have "rnd (of_int (rhe q)) = Fin (of_int (rhe q))" using assms by simp
  then show ?thesis by (simp add: float_of_int_def)
qed

lemma str_nat_0: "str_nat 0 = ''0''"
  by (simp add: str_nat.simps digit_char_def)

lemma fmt_1f_of_int: "fmt_1f (Fin (of_int n)) = str_int n @ ''.0''"
proof -
  have "\<bar>of_int n :: rat\<bar> * 10 = of_int (\<bar>n\<bar> * 10)" by simp
  then have r: "rhe (\<bar>of_int n :: rat\<bar> * 10) = \<bar>n\<bar> * 10" by (simp only: rhe_of_int)
  show ?thesis
    unfolding fmt_1f.simps Let_def r by (simp add: str_nat_0 str_int_def abs_if)
qed

lemma fmt_1f_int_rhe:
  assumes "rnd q = Fin q"
  shows "fmt_1f_int (rhe q) = Inr (str_int (rhe q) @ ''.0'')"
  by (simp add: fmt_1f_int_def float_of_int_rhe [OF assms] fmt_1f_of_int del: fmt_1f.simps)

lemma fmt_1f_int_py_round:
  assumes "py_round (fquot x y) = Inr n"
  shows "fmt_1f_int n = Inr (str_int n @ ''.0'')"
proof -
  from py_round_Inr_D [OF assms] obtain q where q: "fquot x y = Fin q" "n = rhe q" by blast
  from fquot_is_float [OF q(1)] show ?thesis unfolding q(2) by (rule fmt_1f_int_rhe)
qed

lemma py_round1_spec:
  "\<exists>k. (\<bar>a * 10 - of_int k\<bar> < 1 / 2 \<or> \<bar>a * 10 - of_int k\<bar> = 1 / 2 \<and> even k) \<and>
     py_round1 (Fin a) = (a < 0, rnd (of_int k / 10))"
  using rhe_spec [of "a * 10"] by (intro exI [of _ "rhe (a * 10)"]) simp

lemma calculate_crcl_Inr_D:
  assumes "calculate_crcl repr d = Inr out"
  shows "\<exists>b c abw_lb. crcl_weights d = Inr b \<and> crcl_values d b = Inr c \<and>
     py_truediv (abw b) (lit 0.453592) = Inr abw_lb \<and>
     original_crcl out = str_int (original_crcl_rounded c) @ '' mL/min'' @ [CHR 0x0A] @
       ''Creatinine clearance, original Cockcroft-Gault'' \<and>
     modified_crcl out = str_int (modified_crcl_rounded c) @ '' mL/min'' @ [CHR 0x0A] @
       ''Creatinine clearance modified for overweight patient, using adjusted body weight of '' @
       repr (py_round1 (abw b)) @ '' kg ('' @ repr (py_round1 abw_lb) @ '' lbs).'' \<and>
     crcl_range out = range_text c @ '' mL/min''"
  using assms unfolding calculate_crcl_def rbind_Inr_iff by auto

subsection \<open>Failures of the calculation\<close>

lemma float_of_int_Inl: "float_of_int n = Inl e \<Longrightarrow> e = OverflowError"
  by (auto simp: float_of_int_def split: pyfloat.splits)

lemma py_round_Inl: "py_round x = Inl e \<Longrightarrow> e = OverflowError \<or> e = ValueError"
  by (cases x) auto

lemma fmt_1f_int_Inl: "fmt_1f_int n = Inl e \<Longrightarrow> e = OverflowError"
  by (auto simp: fmt_1f_int_def rbind_Inl_iff dest: float_of_int_Inl)

lemma gt0_cases:
  assumes "gt0 x"
  obtains q where "x = Fin q" "0 < q" "rnd q = Fin q" | "x = PInf"
  using assms by (cases x) (auto simp: gt0_def is_float_def)

lemma den_nonzero:
  assumes "gt0 s"
  shows "fmul (Fin 72) s \<noteq> Fin 0"
  using assms
proof (cases rule: gt0_cases)
  case (1 q)
  show ?thesis
  proof
    assume "fmul (Fin 72) s = Fin 0"
    then have "rnd_exact (72 * q) = 0" using 1(1) by (simp add: rnd_Fin_iff)
    moreover have "rnd_exact q \<le> rnd_exact (72 * q)" using 1(2) by (intro rnd_exact_mono) simp
    moreover have "rnd_exact q = q" using 1(3) by (simp add: rnd_Fin_iff)
    ultimately show False using 1(2) by simp
  qed
next
  case 2
  then show ?thesis by (simp add: inf_times_def)
qed

lemma cockcroft_gault_Inr_iff:
  "cockcroft_gault a scr sf w = Inr r \<longleftrightarrow>
     (\<exists>k. float_of_int (140 - a) = Inr k \<and> fmul (Fin 72) scr \<noteq> Fin 0 \<and>
        r = fquot (fmul (fmul k w) sf) (fmul (Fin 72) scr))"
  by (auto simp: cockcroft_gault_def rbind_Inr_iff py_truediv_def)

lemma crcl_values_complete:
  assumes k: "float_of_int (140 - age d) = Inr k"
    and nz: "fmul (Fin 72) (serum_creatinine d) \<noteq> Fin 0"
    and sf: "sf = (if sex d = ''female'' then lit 0.85 else lit 1.0)"
    and x: "fquot (fmul (fmul k (weight_in_kg b)) sf) (fmul (Fin 72) (serum_creatinine d)) = Fin x"
    and y: "fquot (fmul (fmul k (abw b)) sf) (fmul (Fin 72) (serum_creatinine d)) = Fin y"
    and z: "fquot (fmul (fmul k (ibw b)) sf) (fmul (Fin 72) (serum_creatinine d)) = Fin z"
  shows "\<exists>c. crcl_values d b = Inr c"
proof -
  have f: "fmt_1f_int (rhe y) = Inr (str_int (rhe y) @ ''.0'')"
    "fmt_1f_int (rhe z) = Inr (str_int (rhe z) @ ''.0'')"
    using fquot_is_float [OF y] fquot_is_float [OF z] by (simp_all add: fmt_1f_int_rhe)
  have lo: "\<exists>s. fmt_1f_int (min (rhe z) (rhe y)) = Inr s"
    using f by (simp add: min_def)
  have hi: "\<exists>s. fmt_1f_int (max (rhe z) (rhe y)) = Inr s"
    using f by (simp add: max_def)
  from lo hi obtain s t where st: "fmt_1f_int (min (rhe z) (rhe y)) = Inr s"
    "fmt_1f_int (max (rhe z) (rhe y)) = Inr t" by blast
  show ?thesis
    unfolding crcl_values_def Let_def sf [symmetric] k rbind_Inr py_truediv_def
    by (simp only: nz if_False rbind_Inr x y z py_round.simps st) blast
qed

lemma rbind_Inl_E:
  assumes "rbind m f = Inl e"
  obtains "m = Inl e" | v where "m = Inr v" "f v = Inl e"
  using assms by (auto simp: rbind_Inl_iff)

lemma crcl_values_Inl:
  assumes "gt0 (serum_creatinine d)" "crcl_values d b = Inl e"
  shows "e = OverflowError \<or> e = ValueError"
proof -
  note nz = den_nonzero [OF assms(1)]
  have t: "py_truediv u (fmul (Fin 72) (serum_creatinine d)) =
      Inr (fquot u (fmul (Fin 72) (serum_creatinine d)))" for u
    using nz by (simp add: py_truediv_def)
  show ?thesis
    using assms(2) unfolding crcl_values_def Let_def t
    by (elim rbind_Inl_E) (auto dest: float_of_int_Inl py_round_Inl fmt_1f_int_Inl)
qed

lemma pounds_defined: "py_truediv x (lit 0.453592) = Inr (fquot x (lit 0.453592))"
  by (simp add: py_truediv_def lit_0_453592)

lemma calculate_crcl_Inr_iff:
  assumes "crcl_weights d = Inr b"
  shows "(\<exists>out. calculate_crcl repr d = Inr out) \<longleftrightarrow> (\<exists>c. crcl_values d b = Inr c)"
  unfolding calculate_crcl_def assms rbind_Inr pounds_defined
  by (cases "crcl_values d b") simp_all

lemma calculate_crcl_Inl_iff:
  assumes "crcl_weights d = Inr b"
  shows "calculate_crcl repr d = Inl e \<longleftrightarrow> crcl_values d b = Inl e"
  unfolding calculate_crcl_def assms rbind_Inr pounds_defined
  by (cases "crcl_values d b") simp_all

lemma rnd_overflow:
  assumes "2 powi 1024 \<le> q"
  shows "rnd q = PInf"
proof -
  have "rnd_exact (of_int 1 * 2 powi 1024) = of_int 1 * 2 powi 1024"
    by (rule rnd_exact_fix) simp_all
  then have "rnd_exact (2 powi 1024) = 2 powi 1024" by (simp only: of_int_1 mult_1)
  with rnd_exact_mono [OF assms] show ?thesis by (simp only: rnd_PInf_iff)
qed

lemma huge_weight_pos: "0 < huge_weight"
  unfolding huge_weight_def by (rule p2_pos)

lemma huge_weight_float: "rnd huge_weight = Fin huge_weight"
proof -
  have "rnd_exact (of_int 1 * 2 powi 1020) = of_int 1 * 2 powi 1020"
    by (rule rnd_exact_fix) simp_all
  then have e: "rnd_exact huge_weight = huge_weight"
    by (simp only: of_int_1 mult_1 huge_weight_def)
  have "\<bar>huge_weight\<bar> = huge_weight" using huge_weight_pos by simp
  moreover have "huge_weight < 2 powi 1024" unfolding huge_weight_def by (rule p2_strict) simp
  ultimately show ?thesis by (simp only: rnd_Fin_iff e)
qed

lemma huge_weight_overflow: "fmul (Fin 95) (Fin huge_weight) = PInf"
proof -
  have "(2::rat) powi 4 * 2 powi 1020 = 2 powi 1024" by (rule p2_join) simp
  moreover have "(2::rat) powi 4 = 16" by simp
  ultimately have "2 powi 1024 = 16 * huge_weight" by (simp only: huge_weight_def)
  also have "\<dots> \<le> 95 * huge_weight" using huge_weight_pos by simp
  finally have "rnd (95 * huge_weight) = PInf" by (rule rnd_overflow)
  then show ?thesis by (simp only: fmul.simps)
qed

lemma validated_request_huge: "validated request_huge"
  by (simp add: validated_def gt0_def is_float_def request_huge_def request_metric_def
      huge_weight_float huge_weight_pos ev)

lemma output_request_huge: "calculate_crcl repr request_huge = Inl OverflowError"
proof -
  obtain b where b: "crcl_weights request_huge = Inr b" using crcl_weights_eq by blast
  then have w: "weight_in_kg b = Fin huge_weight"
    by (auto simp: crcl_weights_eq request_huge_def request_metric_def)
  have i: "fmul PInf (Fin 1) = PInf" "0 < q \<Longrightarrow> fquot PInf (Fin q) = PInf" for q
    by (simp_all add: inf_times_def)
  have "crcl_values request_huge b = Inl OverflowError"
    by (simp add: crcl_values_def request_huge_def request_metric_def w py_truediv_def
        float_of_int_def huge_weight_overflow i Let_def ev
        del: fadd.simps fmul.simps fquot.simps)
  then show ?thesis by (simp only: calculate_crcl_Inl_iff [OF b])
qed

subsection \<open>The adjusted body weight against the weight\<close>

lemma float_grid:
  assumes "rnd q = Fin q"
  shows "\<exists>n. q = of_int n * 2 powi (- 1074)"
proof -
  define j where "j = max (ilog2 \<bar>q\<bar>) (- 1022) - 52"
  have j: "0 \<le> j + 1074" by (simp add: j_def)
  have "2 powi (j + 1074) * 2 powi (- 1074) = (2::rat) powi j" by (rule p2_join) simp
  then have s: "(2::rat) powi j = of_int (2 ^ nat (j + 1074)) * 2 powi (- 1074)"
    using j by (simp only: p2_nat)
  have "q = rnd_exact q" using assms by (simp only: rnd_Fin_iff)
  also have "\<dots> = of_int (rhe (q / ulp q)) * 2 powi j"
    by (simp only: rnd_exact_def ulp_def j_def)
  also have "\<dots> = of_int (rhe (q / ulp q) * 2 ^ nat (j + 1074)) * 2 powi (- 1074)"
    by (subst s) (simp only: of_int_mult mult.assoc)
  finally show ?thesis ..
qed

lemma small_exact:
  assumes "\<bar>n\<bar> \<le> 2 ^ 53"
  shows "rnd_exact (of_int n * 2 powi (- 1074)) = of_int n * 2 powi (- 1074)"
  using assms by (intro rnd_exact_fix) simp_all

lemma rnd_exact_err2:
  "\<bar>rnd_exact q - q\<bar> \<le> \<bar>q\<bar> * 2 powi (- 53) + 2 powi (- 1075)"
proof (cases "q = 0")
  case True
  then show ?thesis using p2_pos [of "- 1075"] by simp
next
  case False
  then have pos: "0 < \<bar>q\<bar>" by simp
  have h: "ulp q / 2 = ulp q * 2 powi (- 1)" by (simp add: power_int_minus)
  show ?thesis
  proof (cases "- 1022 \<le> ilog2 \<bar>q\<bar>")
    case True
    then have u: "ulp q = 2 powi (ilog2 \<bar>q\<bar> - 52)" by (simp add: ulp_def max_def)
    have a: "2 powi (ilog2 \<bar>q\<bar> - 52) * 2 powi (- 1) = (2::rat) powi (ilog2 \<bar>q\<bar> - 53)"
      by (rule p2_join) simp
    have b: "2 powi (ilog2 \<bar>q\<bar>) * 2 powi (- 53) = (2::rat) powi (ilog2 \<bar>q\<bar> - 53)"
      by (rule p2_join) simp
    have "ulp q / 2 = ulp q * 2 powi (- 1)" by (rule h)
    also have "\<dots> = 2 powi (ilog2 \<bar>q\<bar>) * 2 powi (- 53)"
      by (simp only: u a b)
    also have "\<dots> \<le> \<bar>q\<bar> * 2 powi (- 53)"
      using ilog2_bounds [OF pos] p2_pos [of "- 53"] by (intro mult_right_mono) simp_all
    finally have "ulp q / 2 \<le> \<bar>q\<bar> * 2 powi (- 53)" .
    with rnd_exact_err [of q] p2_pos [of "- 1075"] show ?thesis by linarith
  next
    case F: False
    then have u: "ulp q = 2 powi (- 1074)" by (simp add: ulp_def max_def)
    have "ulp q / 2 = ulp q * 2 powi (- 1)" by (rule h)
    also have "\<dots> = 2 powi (- 1074) * 2 powi (- 1)" by (simp only: u)
    also have "\<dots> = 2 powi (- 1075)" by (rule p2_join) simp
    finally have "ulp q / 2 = 2 powi (- 1075)" .
    moreover have "0 \<le> \<bar>q\<bar> * 2 powi (- 53)" using p2_pos [of "- 53"] by simp
    ultimately show ?thesis using rnd_exact_err [of q] by linarith
  qed
qed


lemma adjusted_le_weight:
  assumes w: "rnd w = Fin w" and i: "rnd i = Fin i" and lt: "i < w"
    and a: "fadd (Fin i) (fmul (lit 0.4) (fsub (Fin w) (Fin i))) = Fin a"
  shows "a \<le> w"
proof -
  define c :: rat where "c = 3602879701896397 / 9007199254740992"
  have c: "0 \<le> c" "c \<le> 1 / 2" by (simp_all add: c_def)
  have l: "lit 0.4 = Fin c" by (simp add: lit_0_4 c_def)
  define \<delta> where "\<delta> = w - i"
  have \<delta>: "0 < \<delta>" using lt by (simp add: \<delta>_def)
  from a obtain t where t': "fmul (Fin c) (fsub (Fin w) (Fin i)) = Fin t"
    and s: "rnd (i + t) = Fin a"
    unfolding l by (auto dest!: fadd_Fin_D)
  from t' obtain dd where dd': "fsub (Fin w) (Fin i) = Fin dd" and t'': "rnd (c * dd) = Fin t"
    by (auto dest!: fmul_Fin_D)
  have dd: "dd = rnd_exact \<delta>" using dd' by (simp add: fsub_def rnd_Fin_iff \<delta>_def)
  have t: "t = rnd_exact (c * dd)" using t'' by (simp add: rnd_Fin_iff)
  have dd0: "0 \<le> dd" unfolding dd using \<delta> by (intro rnd_exact_nonneg) simp
  define g :: rat where "g = 2 powi (- 1074)"
  have g: "0 < g" unfolding g_def by (rule p2_pos)
  from float_grid [OF w] float_grid [OF i] obtain nw ni where
    "w = of_int nw * g" "i = of_int ni * g" unfolding g_def by blast
  then have n: "\<delta> = of_int (nw - ni) * g" by (simp add: \<delta>_def algebra_simps)
  define n where "n = nw - ni"
  have \<delta>n: "\<delta> = of_int n * g" using n by (simp add: n_def)
  have npos: "0 < n"
  proof (rule ccontr)
    assume "\<not> 0 < n"
    then have "(of_int n :: rat) \<le> 0" by simp
    then have "of_int n * g \<le> 0" using g by (simp add: mult_le_0_iff)
    with \<delta> \<delta>n show False by simp
  qed
  have le: "t \<le> \<delta>"
  proof (cases "n \<le> 2 ^ 53")
    case True
    then have "\<bar>n\<bar> \<le> 2 ^ 53" using npos by simp
    then have "rnd_exact \<delta> = \<delta>" unfolding \<delta>n g_def by (rule small_exact)
    then have e: "dd = \<delta>" by (simp add: dd)
    have "c * \<delta> \<le> 1 * \<delta>" using c \<delta> by (intro mult_right_mono) simp_all
    then have "rnd_exact (c * \<delta>) \<le> rnd_exact \<delta>" by (intro rnd_exact_mono) simp
    then show ?thesis using \<open>rnd_exact \<delta> = \<delta>\<close> by (simp add: t e)
  next
    case False
    then have "2 ^ 53 \<le> n" by simp
    then have "(of_int (2 ^ 53) :: rat) \<le> of_int n" by (simp only: of_int_le_iff)
    then have "of_int (2 ^ 53) * g \<le> \<delta>" unfolding \<delta>n using g by (intro mult_right_mono) simp_all
    moreover have "of_int (2 ^ 53) * g = 2 powi 53 * 2 powi (- 1074)" by (simp add: g_def)
    moreover have "2 powi 53 * 2 powi (- 1074) = (2::rat) powi (- 1021)" by (rule p2_join) simp
    ultimately have big: "2 powi (- 1021) \<le> \<delta>" by (simp only:)
    define \<eta> :: rat where "\<eta> = 2 powi (- 1075)"
    define \<epsilon> :: rat where "\<epsilon> = 2 powi (- 53)"
    have \<epsilon>: "0 \<le> \<epsilon>" "\<epsilon> \<le> 1 / 8" by (simp_all add: \<epsilon>_def power_int_minus)
    have "2 powi 3 * 2 powi (- 1075) = (2::rat) powi (- 1072)" by (rule p2_join) simp
    moreover have "(2::rat) powi 3 = 8" by simp
    ultimately have "8 * \<eta> = 2 powi (- 1072)" by (simp only: \<eta>_def)
    also have "\<dots> \<le> 2 powi (- 1021)" by (rule p2_mono) simp
    finally have \<eta>: "8 * \<eta> \<le> \<delta>" using big by simp
    have \<eta>0: "0 < \<eta>" unfolding \<eta>_def by (rule p2_pos)
    have "\<bar>dd - \<delta>\<bar> \<le> \<bar>\<delta>\<bar> * \<epsilon> + \<eta>"
      unfolding dd \<epsilon>_def \<eta>_def by (rule rnd_exact_err2)
    then have d1: "dd \<le> \<delta> + \<delta> * \<epsilon> + \<eta>" using \<delta> by simp
    have "\<delta> * \<epsilon> \<le> \<delta> * (1 / 8)" using \<epsilon> \<delta> by (intro mult_left_mono) simp_all
    with d1 \<eta> have d2: "dd \<le> 5 / 4 * \<delta>" by simp
    have cd0: "0 \<le> c * dd" using c dd0 by simp
    have "c * dd \<le> 1 / 2 * (5 / 4 * \<delta>)" using c dd0 d2 \<delta> by (intro mult_mono) simp_all
    then have cd: "c * dd \<le> 5 / 8 * \<delta>" by simp
    have "\<bar>t - c * dd\<bar> \<le> \<bar>c * dd\<bar> * \<epsilon> + \<eta>"
      unfolding t \<epsilon>_def \<eta>_def by (rule rnd_exact_err2)
    then have t1: "t \<le> c * dd + c * dd * \<epsilon> + \<eta>" using cd0 by simp
    have "c * dd * \<epsilon> \<le> c * dd * (1 / 8)" using \<epsilon> cd0 by (intro mult_left_mono) simp_all
    with t1 cd \<eta> \<delta> show ?thesis by linarith
  qed
  then have "i + t \<le> w" by (simp add: \<delta>_def)
  then show ?thesis using s w by (rule rnd_mono_Fin)
qed

lemma weight_in_kg_float:
  assumes "validated d" "crcl_weights d = Inr b" "weight_in_kg b = Fin w"
  shows "rnd w = Fin w"
proof (cases "unit_system d = ''imperial''")
  case True
  then have "fmul (weight d) (lit 0.453592) = Fin w"
    using assms(2,3) by (auto simp: crcl_weights_eq)
  then show ?thesis by (auto dest!: fmul_Fin_D intro: rnd_idem)
next
  case False
  then have "weight d = Fin w" using assms(2,3) by (auto simp: crcl_weights_eq)
  moreover have "gt0 (weight d)" using assms(1) by (simp add: validated_def)
  ultimately show ?thesis by (simp add: gt0_def is_float_def)
qed

lemma calculate_ibw_float: "calculate_ibw h sx = Fin i \<Longrightarrow> rnd i = Fin i"
  unfolding calculate_ibw_def by (auto split: if_splits dest!: fadd_Fin_D intro: rnd_idem)

lemma ibw_float:
  assumes "crcl_weights d = Inr b" "ibw b = Fin i"
  shows "rnd i = Fin i"
proof -
  from assms(1) have "ibw b = calculate_ibw (height_in_inches b) (sex d)"
    by (auto simp: crcl_weights_eq)
  with assms(2) show ?thesis by (simp add: calculate_ibw_float)
qed

lemma abw_le_weight:
  assumes "validated d" "crcl_weights d = Inr b" "fgt (weight_in_kg b) (ibw b)"
    and w: "weight_in_kg b = Fin w" and a: "abw b = Fin a"
  shows "a \<le> w"
proof -
  have e: "abw b = fadd (ibw b) (fmul (lit 0.4) (fsub (weight_in_kg b) (ibw b)))"
    using assms(2,3) by (auto simp: crcl_weights_eq Let_def)
  with a obtain i where i: "ibw b = Fin i" by (auto dest!: fadd_Fin_D)
  have lt: "i < w" using assms(3) by (simp add: w i)
  note fw = weight_in_kg_float [OF assms(1,2) w]
  note fi = ibw_float [OF assms(2) i]
  from e a have "fadd (Fin i) (fmul (lit 0.4) (fsub (Fin w) (Fin i))) = Fin a"
    by (simp only: w i)
  with fw fi lt show ?thesis by (rule adjusted_le_weight)
qed

lemma clearance_mono:
  assumes m: "fquot (fmul (fmul (Fin k) (Fin a)) sf) den = Fin y"
    and o: "fquot (fmul (fmul (Fin k) (Fin w)) sf) den = Fin x"
    and k: "0 \<le> k" and s: "\<forall>s. sf = Fin s \<longrightarrow> 0 \<le> s"
    and aw: "a \<le> w" and b: "\<forall>b. den = Fin b \<longrightarrow> 0 < b"
  shows "y \<le> x"
proof -
  from fquot_Fin_D [OF m] fquot_Fin_D [OF o]
  consider (fin) pm po bb where "fmul (fmul (Fin k) (Fin a)) sf = Fin pm"
      "fmul (fmul (Fin k) (Fin w)) sf = Fin po" "den = Fin bb"
      "rnd (pm / bb) = Fin y" "rnd (po / bb) = Fin x"
    | (inf) "y = 0" "x = 0"
    by auto
  then show ?thesis
  proof cases
    case fin
    from fin(1) obtain qm ss where qm: "rnd (k * a) = Fin qm" "sf = Fin ss" "rnd (qm * ss) = Fin pm"
      by (auto dest!: fmul_Fin_D)
    from fin(2) qm(2) obtain qo where qo: "rnd (k * w) = Fin qo" "rnd (qo * ss) = Fin po"
      by (auto dest!: fmul_Fin_D)
    have ss: "0 \<le> ss" using s qm(2) by simp
    have bb: "0 < bb" using b fin(3) by simp
    have "k * a \<le> k * w" using k aw by (rule mult_left_mono [rotated])
    then have "qm \<le> qo" using qm(1) qo(1) by (rule rnd_mono_Fin)
    then have "qm * ss \<le> qo * ss" using ss by (rule mult_right_mono)
    then have "pm \<le> po" using qm(3) qo(2) by (rule rnd_mono_Fin)
    then have "pm / bb \<le> po / bb" using bb by (simp add: divide_right_mono)
    then show ?thesis using fin(4,5) by (rule rnd_mono_Fin)
  next
    case inf
    then show ?thesis by simp
  qed
qed

lemma den_positive:
  assumes "gt0 s" "fmul (Fin 72) s = Fin b"
  shows "0 < b"
proof -
  from assms obtain q where q: "s = Fin q" "0 < q" by (cases s) (auto simp: gt0_def inf_times_def)
  then have "b = rnd_exact (72 * q)" using assms(2) by (simp add: rnd_Fin_iff)
  then have "0 \<le> b" using q(2) by (simp add: rnd_exact_nonneg)
  moreover have "b \<noteq> 0" using den_nonzero [OF assms(1)] assms(2) by auto
  ultimately show ?thesis by simp
qed

lemma float_of_int_nonneg:
  assumes "float_of_int n = Inr k" "0 \<le> n"
  shows "\<exists>q. k = Fin q \<and> 0 \<le> q"
proof -
  from assms(1) obtain q where q: "k = Fin q" "rnd (of_int n) = Fin q"
    by (cases "rnd (of_int n :: rat)") (auto simp: float_of_int_def)
  then have "q = rnd_exact (of_int n)" by (simp add: rnd_Fin_iff)
  then have "0 \<le> q" using assms(2) by (simp add: rnd_exact_nonneg)
  with q(1) show ?thesis by blast
qed

section \<open>The claims\<close>

text \<open>
  C2: for every input the units are normalised as follows. Under \<open>imperial\<close> the weight in
  kg is the weight times 0.453592 and the height in inches is the height unchanged; under
  \<open>metric\<close> the weight in kg is the weight unchanged and the height in inches is the height
  divided by 2.54. The division is a division: at a height of 170 cm it differs from the
  product with the float inverse of 2.54.
\<close>

theorem unit_normalization:
  "(\<exists>b. crcl_weights d = Inr b \<and>
      (unit_system d = ''imperial'' \<longrightarrow>
         weight_in_kg b = fmul (weight d) (lit 0.453592) \<and> height_in_inches b = height d) \<and>
      (unit_system d = ''metric'' \<longrightarrow>
         weight_in_kg b = weight d \<and>
         py_truediv (height d) (lit 2.54) = Inr (height_in_inches b))) \<and>
   py_truediv (Fin 170) (lit 2.54) \<noteq> Inr (fmul (Fin 170) (fquot (Fin 1) (lit 2.54)))"
proof -
  have "py_truediv (Fin 170) (lit 2.54) \<noteq> Inr (fmul (Fin 170) (fquot (Fin 1) (lit 2.54)))"
    by (simp add: py_truediv_def ev del: fmul.simps fquot.simps)
  moreover have "py_truediv (height d) (lit 2.54) = Inr (fquot (height d) (lit 2.54))"
    by (simp add: py_truediv_def lit_2_54)
  ultimately show ?thesis
    by (simp add: crcl_weights_eq)
qed

theorem unit_normalization_witness:
  "unit_system request_imperial = ''imperial'' \<and> unit_system request_metric = ''metric'' \<and>
   (\<exists>b. crcl_weights request_imperial = Inr b \<and>
      weight_in_kg b = fmul (Fin 110) (lit 0.453592) \<and> height_in_inches b = Fin 64) \<and>
   (\<exists>b. crcl_weights request_metric = Inr b \<and>
      weight_in_kg b = Fin 70 \<and> py_truediv (Fin 170) (lit 2.54) = Inr (height_in_inches b))"
  using unit_normalization [of request_imperial] unit_normalization [of request_metric]
  by (simp add: request_imperial_def request_metric_def)

text \<open>
  C3: for every input, the adjusted body weight is \<open>IBW + 0.4 \<times> (weight_kg - IBW)\<close> if the
  weight in kg is greater than the ideal body weight, and the weight in kg unchanged
  otherwise.
\<close>

theorem adjusted_body_weight:
  "\<exists>b. crcl_weights d = Inr b \<and>
     ibw b = calculate_ibw (height_in_inches b) (sex d) \<and>
     (fgt (weight_in_kg b) (ibw b) \<longrightarrow>
        abw b = fadd (ibw b) (fmul (lit 0.4) (fsub (weight_in_kg b) (ibw b)))) \<and>
     (\<not> fgt (weight_in_kg b) (ibw b) \<longrightarrow> abw b = weight_in_kg b)"
  by (simp add: crcl_weights_eq Let_def)

theorem adjusted_body_weight_witness:
  "(\<exists>b. crcl_weights request_metric = Inr b \<and> fgt (weight_in_kg b) (ibw b) \<and>
      abw b = fadd (ibw b) (fmul (lit 0.4) (fsub (weight_in_kg b) (ibw b)))) \<and>
   (\<exists>b. crcl_weights request_imperial = Inr b \<and> \<not> fgt (weight_in_kg b) (ibw b) \<and>
      abw b = weight_in_kg b)"
proof -
  obtain b where b: "crcl_weights request_metric = Inr b"
    and over: "fgt (weight_in_kg b) (ibw b) \<longrightarrow>
      abw b = fadd (ibw b) (fmul (lit 0.4) (fsub (weight_in_kg b) (ibw b)))"
    using adjusted_body_weight [of request_metric] by blast
  have "fgt (weight_in_kg b) (ibw b)"
    using b by (auto simp: weights_request_metric request_metric_weights_def)
  with b over have 1: "\<exists>b. crcl_weights request_metric = Inr b \<and> fgt (weight_in_kg b) (ibw b) \<and>
      abw b = fadd (ibw b) (fmul (lit 0.4) (fsub (weight_in_kg b) (ibw b)))"
    by blast
  obtain b' where b': "crcl_weights request_imperial = Inr b'"
    and under: "\<not> fgt (weight_in_kg b') (ibw b') \<longrightarrow> abw b' = weight_in_kg b'"
    using adjusted_body_weight [of request_imperial] by blast
  have "\<not> fgt (weight_in_kg b') (ibw b')"
    using b' by (auto simp: weights_request_imperial request_imperial_weights_def)
  with b' under have 2: "\<exists>b. crcl_weights request_imperial = Inr b \<and>
      \<not> fgt (weight_in_kg b) (ibw b) \<and> abw b = weight_in_kg b"
    by blast
  from 1 2 show ?thesis ..
qed

text \<open>
  C4: the ideal body weight is \<open>50 + 2.3 \<times> (height_in - 60)\<close> for a man and
  \<open>45.5 + 2.3 \<times> (height_in - 60)\<close> for a woman, with no floor at zero and no other bound:
  at a height of 30 in it is \<open>-19\<close> for a man, and that value is used as it is (the
  clearance from the ideal body weight of the sample request of that height rounds
  to \<open>-23\<close>).
\<close>

theorem calculate_ibw_unbounded:
  "calculate_ibw h ''male'' = fadd (Fin 50) (fmul (lit 2.3) (fsub h (Fin 60))) \<and>
   calculate_ibw h ''female'' = fadd (lit 45.5) (fmul (lit 2.3) (fsub h (Fin 60))) \<and>
   calculate_ibw (Fin 30) ''male'' = Fin (- 19) \<and>
   validated request_short \<and>
   (\<exists>b c. crcl_weights request_short = Inr b \<and> crcl_values request_short b = Inr c \<and>
      height_in_inches b = Fin 30 \<and> ibw b = Fin (- 19) \<and> crcl_using_ibw_rounded c = - 23)"
proof -
  have "calculate_ibw (Fin 30) ''male'' = Fin (- 19)"
    by (simp add: calculate_ibw_def ev del: fadd.simps fmul.simps)
  moreover have "height_in_inches request_short_weights = Fin 30"
    "ibw request_short_weights = Fin (- 19)" "crcl_using_ibw_rounded request_short_values = - 23"
    by (simp_all add: request_short_weights_def request_short_values_def)
  ultimately show ?thesis
    using validated_request_short weights_request_short values_request_short
    by (auto simp: calculate_ibw_def)
qed

text \<open>
  C10: when the field \<open>unit_system\<close> is absent from the form, the schema supplies
  \<open>metric\<close>: the form is validated as if it carried \<open>metric\<close>, it is accepted when its five
  other fields are valid, and the calculation takes the weight as kilograms and divides
  the height by 2.54.
\<close>

theorem unit_system_default:
  assumes "form_unit_system f = None"
  shows "validate_form f = validate_form (f\<lparr>form_unit_system := Some ''metric''\<rparr>) \<and>
    (\<forall>w h a s x.
       form_weight f = Some w \<and> gt0 w \<and> form_height f = Some h \<and> gt0 h \<and>
       form_age f = Some a \<and> 18 \<le> a \<and> form_serum_creatinine f = Some s \<and> gt0 s \<and>
       form_sex f = Some x \<and> (x = ''male'' \<or> x = ''female'') \<longrightarrow>
       validate_form f = Inr \<lparr>unit_system = ''metric'', weight = w, height = h, age = a,
         serum_creatinine = s, sex = x\<rparr>) \<and>
    (\<forall>d. validate_form f = Inr d \<longrightarrow>
       unit_system d = ''metric'' \<and>
       (\<exists>b. crcl_weights d = Inr b \<and> weight_in_kg b = weight d \<and>
          py_truediv (height d) (lit 2.54) = Inr (height_in_inches b)))"
proof (intro conjI allI impI)
  show "validate_form f = validate_form (f\<lparr>form_unit_system := Some ''metric''\<rparr>)"
    using assms by (simp add: validate_form_def with_default_def)
next
  fix w h a s x
  assume "form_weight f = Some w \<and> gt0 w \<and> form_height f = Some h \<and> gt0 h \<and>
       form_age f = Some a \<and> 18 \<le> a \<and> form_serum_creatinine f = Some s \<and> gt0 s \<and>
       form_sex f = Some x \<and> (x = ''male'' \<or> x = ''female'')"
  then show "validate_form f = Inr \<lparr>unit_system = ''metric'', weight = w, height = h, age = a,
         serum_creatinine = s, sex = x\<rparr>"
    using assms by (auto simp: validate_form_def with_default_def required_def)
next
  fix d
  assume "validate_form f = Inr d"
  then show "unit_system d = ''metric''"
    using assms
    by (auto simp: validate_form_def with_default_def rbind_Inr_iff)
  then show "\<exists>b. crcl_weights d = Inr b \<and> weight_in_kg b = weight d \<and>
          py_truediv (height d) (lit 2.54) = Inr (height_in_inches b)"
    by (simp add: crcl_weights_eq py_truediv_def lit_2_54)
qed

theorem unit_system_default_witness:
  "form_unit_system form_without_units = None \<and>
   validate_form form_without_units = Inr request_metric \<and>
   unit_system request_metric = ''metric'' \<and>
   (\<exists>b. crcl_weights request_metric = Inr b \<and> weight_in_kg b = weight request_metric \<and>
      py_truediv (height request_metric) (lit 2.54) = Inr (height_in_inches b))"
proof -
  have n: "form_unit_system form_without_units = None"
    by (simp add: form_without_units_def)
  note t = unit_system_default [OF n]
  have "validate_form form_without_units = Inr \<lparr>unit_system = ''metric'', weight = Fin 70,
      height = Fin 170, age = 45, serum_creatinine = lit 1.1, sex = ''male''\<rparr>"
    by (rule t [THEN conjunct2, THEN conjunct1, rule_format])
      (simp add: form_without_units_def gt0_def is_float_def ev)
  then have v: "validate_form form_without_units = Inr request_metric"
    by (simp add: request_metric_def)
  from t [THEN conjunct2, THEN conjunct2, rule_format, OF v] n v show ?thesis
    by simp
qed

text \<open>
  C1: the three clearances are one formula,
  \<open>(140 - age) \<times> w \<times> sex_factor / (72 \<times> serum_creatinine)\<close>, with the same age, the same
  sex factor and the same serum creatinine, and with the weight term \<open>w\<close> the weight in kg
  for \<open>original_crcl\<close>, the adjusted body weight for \<open>modified_crcl\<close> and the ideal body
  weight for \<open>crcl_using_ibw\<close>. The sex factor is 0.85 for a woman and 1.0 for a man.
\<close>

theorem clearances_share_formula:
  assumes "crcl_values d b = Inr c"
  shows "(sex d = ''female'' \<longrightarrow> sex_factor c = lit 0.85) \<and>
    (sex d = ''male'' \<longrightarrow> sex_factor c = lit 1.0) \<and>
    cockcroft_gault (age d) (serum_creatinine d) (sex_factor c) (weight_in_kg b) =
      Inr (original_crcl_raw c) \<and>
    cockcroft_gault (age d) (serum_creatinine d) (sex_factor c) (abw b) =
      Inr (modified_crcl_raw c) \<and>
    cockcroft_gault (age d) (serum_creatinine d) (sex_factor c) (ibw b) =
      Inr (crcl_using_ibw_raw c)"
proof -
  from crcl_values_Inr_D [OF assms] obtain k where
    k: "float_of_int (140 - age d) = Inr k"
    and nz: "fmul (Fin 72) (serum_creatinine d) \<noteq> Fin 0"
    and sf: "sex_factor c = (if sex d = ''female'' then lit 0.85 else lit 1.0)"
    and o: "original_crcl_raw c =
      fquot (fmul (fmul k (weight_in_kg b)) (sex_factor c)) (fmul (Fin 72) (serum_creatinine d))"
    and m: "modified_crcl_raw c =
      fquot (fmul (fmul k (abw b)) (sex_factor c)) (fmul (Fin 72) (serum_creatinine d))"
    and i: "crcl_using_ibw_raw c =
      fquot (fmul (fmul k (ibw b)) (sex_factor c)) (fmul (Fin 72) (serum_creatinine d))"
    by blast
  have "cockcroft_gault (age d) (serum_creatinine d) (sex_factor c) w =
      Inr (fquot (fmul (fmul k w) (sex_factor c)) (fmul (Fin 72) (serum_creatinine d)))" for w
    using k nz by (simp add: cockcroft_gault_def py_truediv_def)
  with sf o m i show ?thesis by simp
qed

theorem clearances_share_formula_witness:
  "crcl_values request_imperial request_imperial_weights = Inr request_imperial_values \<and>
   sex request_imperial = ''female'' \<and> sex_factor request_imperial_values = lit 0.85 \<and>
   cockcroft_gault 30 (lit 0.9) (sex_factor request_imperial_values)
     (weight_in_kg request_imperial_weights) = Inr (original_crcl_raw request_imperial_values) \<and>
   cockcroft_gault 30 (lit 0.9) (sex_factor request_imperial_values)
     (abw request_imperial_weights) = Inr (modified_crcl_raw request_imperial_values) \<and>
   cockcroft_gault 30 (lit 0.9) (sex_factor request_imperial_values)
     (ibw request_imperial_weights) = Inr (crcl_using_ibw_raw request_imperial_values)"
  using clearances_share_formula [OF values_request_imperial] values_request_imperial
  by (auto simp: request_imperial_def)

text \<open>
  C7: two inputs that agree on height, sex, age, serum creatinine and unit system and
  differ in weight have the same ideal body weight and the same \<open>crcl_using_ibw\<close>, before
  and after rounding.
\<close>

theorem crcl_using_ibw_ignores_weight:
  assumes "crcl_weights d = Inr b" "crcl_values d b = Inr c"
    and "crcl_weights (d\<lparr>weight := w'\<rparr>) = Inr b'" "crcl_values (d\<lparr>weight := w'\<rparr>) b' = Inr c'"
  shows "ibw b' = ibw b \<and> crcl_using_ibw_raw c' = crcl_using_ibw_raw c \<and>
    crcl_using_ibw_rounded c' = crcl_using_ibw_rounded c"
proof -
  have i: "ibw b' = ibw b"
    using assms(1,3) by (auto simp: crcl_weights_eq)
  from crcl_values_Inr_D [OF assms(2)] crcl_values_Inr_D [OF assms(4)]
  have r: "crcl_using_ibw_raw c' = crcl_using_ibw_raw c"
    and p: "py_round (crcl_using_ibw_raw c) = Inr (crcl_using_ibw_rounded c)"
      "py_round (crcl_using_ibw_raw c') = Inr (crcl_using_ibw_rounded c')"
    by (auto simp: i)
  from p r have "crcl_using_ibw_rounded c' = crcl_using_ibw_rounded c" by simp
  with i r show ?thesis by simp
qed

theorem crcl_using_ibw_ignores_weight_witness:
  "crcl_weights request_metric = Inr request_metric_weights \<and>
   crcl_values request_metric request_metric_weights = Inr request_metric_values \<and>
   crcl_weights (request_metric\<lparr>weight := Fin 90\<rparr>) = Inr request_heavier_weights \<and>
   crcl_values (request_metric\<lparr>weight := Fin 90\<rparr>) request_heavier_weights =
     Inr request_heavier_values \<and>
   weight request_metric \<noteq> Fin 90 \<and>
   ibw request_heavier_weights = ibw request_metric_weights \<and>
   crcl_using_ibw_raw request_heavier_values = crcl_using_ibw_raw request_metric_values \<and>
   crcl_using_ibw_rounded request_heavier_values = crcl_using_ibw_rounded request_metric_values"
proof -
  note h = weights_request_heavier [unfolded request_heavier_def]
    values_request_heavier [unfolded request_heavier_def]
  have "weight request_metric \<noteq> Fin 90" by (simp add: request_metric_def)
  with crcl_using_ibw_ignores_weight [OF weights_request_metric values_request_metric h]
    weights_request_metric values_request_metric h
  show ?thesis by simp
qed

text \<open>
  C5: whenever the calculation returns, the \<open>crcl_range\<close> text is
  \<open>{low:.1f}-{high:.1f} mL/min mL/min\<close>, where \<open>low\<close> and \<open>high\<close> are the minimum and the
  maximum of the rounded \<open>crcl_using_ibw\<close> and \<open>modified_crcl\<close>: each number is the
  integer followed by \<open>.0\<close> (62 renders as \<open>62.0\<close>), the unit appears twice, and
  \<open>low \<le> high\<close>.
\<close>

theorem crcl_range_text:
  assumes "calculate_crcl repr d = Inr out"
  shows "\<exists>b c. crcl_weights d = Inr b \<and> crcl_values d b = Inr c \<and>
     crcl_range out =
       str_int (min (crcl_using_ibw_rounded c) (modified_crcl_rounded c)) @ ''.0-'' @
       str_int (max (crcl_using_ibw_rounded c) (modified_crcl_rounded c)) @
       ''.0 mL/min mL/min'' \<and>
     min (crcl_using_ibw_rounded c) (modified_crcl_rounded c) \<le>
       max (crcl_using_ibw_rounded c) (modified_crcl_rounded c) \<and>
     fmt_1f_int 62 = Inr ''62.0''"
proof -
  from calculate_crcl_Inr_D [OF assms] obtain b c where
    b: "crcl_weights d = Inr b" and c: "crcl_values d b = Inr c"
    and r: "crcl_range out = range_text c @ '' mL/min''"
    by blast
  from crcl_values_Inr_D [OF c] obtain lo hi where
    m: "py_round (modified_crcl_raw c) = Inr (modified_crcl_rounded c)"
      "\<exists>x y. modified_crcl_raw c = fquot x y"
    and i: "py_round (crcl_using_ibw_raw c) = Inr (crcl_using_ibw_rounded c)"
      "\<exists>x y. crcl_using_ibw_raw c = fquot x y"
    and lo: "fmt_1f_int (min (crcl_using_ibw_rounded c) (modified_crcl_rounded c)) = Inr lo"
    and hi: "fmt_1f_int (max (crcl_using_ibw_rounded c) (modified_crcl_rounded c)) = Inr hi"
    and t: "range_text c = lo @ ''-'' @ hi @ '' mL/min''"
    by blast
  have fm: "fmt_1f_int (modified_crcl_rounded c) = Inr (str_int (modified_crcl_rounded c) @ ''.0'')"
    using m fmt_1f_int_py_round by metis
  have fi: "fmt_1f_int (crcl_using_ibw_rounded c) = Inr (str_int (crcl_using_ibw_rounded c) @ ''.0'')"
    using i fmt_1f_int_py_round by metis
  have "lo = str_int (min (crcl_using_ibw_rounded c) (modified_crcl_rounded c)) @ ''.0''"
    using lo fm fi by (simp add: min_def split: if_splits)
  moreover have "hi = str_int (max (crcl_using_ibw_rounded c) (modified_crcl_rounded c)) @ ''.0''"
    using hi fm fi by (simp add: max_def split: if_splits)
  moreover have "fmt_1f_int 62 = Inr ''62.0''"
    using fmt_1f_int_rhe [of 62]
    by (simp add: rnd_of_int [of 62, simplified] str_int_def str_nat.simps digit_char_def)
  ultimately show ?thesis using b c r t by simp
qed

theorem crcl_range_text_witness:
  "calculate_crcl repr_rounded request_aged \<noteq> Inl OverflowError \<and>
   crcl_using_ibw_rounded request_aged_values = - 8 \<and>
   modified_crcl_rounded request_aged_values = - 10 \<and>
   (\<exists>out. calculate_crcl repr_rounded request_aged = Inr out \<and>
      crcl_range out = ''-10.0--8.0 mL/min mL/min'') \<and>
   (\<exists>out. calculate_crcl repr_rounded request_metric = Inr out \<and>
      crcl_range out = ''79.0-81.0 mL/min mL/min'')"
proof -
  obtain out where out: "calculate_crcl repr_rounded request_aged = Inr out"
    using output_request_aged by blast
  from crcl_range_text [OF out]
  have 1: "crcl_range out = ''-10.0--8.0 mL/min mL/min''"
    by (simp add: weights_request_aged values_request_aged request_aged_values_def
        str_int_def str_nat.simps digit_char_def)
  obtain out' where out': "calculate_crcl repr_rounded request_metric = Inr out'"
    using output_request_metric by blast
  from crcl_range_text [OF out']
  have 2: "crcl_range out' = ''79.0-81.0 mL/min mL/min''"
    by (simp add: weights_request_metric values_request_metric request_metric_values_def
        str_int_def str_nat.simps digit_char_def)
  from out 1 out' 2 show ?thesis
    by (simp add: request_aged_values_def)
qed

text \<open>
  C8: the three clearances are rounded to the nearest integer, a tie going to the even
  integer, from the float the formula gave; the adjusted body weight and its value in
  pounds (the adjusted body weight divided by 0.453592) are each rounded to one decimal
  by \<open>round(x, 1)\<close> in the \<open>modified_crcl\<close> text: to the float nearest to \<open>k / 10\<close>, where
  \<open>k\<close> is the integer nearest to ten times the value, a tie going to the even integer,
  with the sign of the value (a negative value that rounds to zero is printed \<open>-0.0\<close>).
\<close>

theorem rounding_of_results:
  assumes "calculate_crcl repr d = Inr out"
  shows "\<exists>b c abw_lb x y z. crcl_weights d = Inr b \<and> crcl_values d b = Inr c \<and>
     original_crcl_raw c = Fin x \<and> modified_crcl_raw c = Fin y \<and> crcl_using_ibw_raw c = Fin z \<and>
     (\<bar>x - of_int (original_crcl_rounded c)\<bar> < 1 / 2 \<or>
      \<bar>x - of_int (original_crcl_rounded c)\<bar> = 1 / 2 \<and> even (original_crcl_rounded c)) \<and>
     (\<bar>y - of_int (modified_crcl_rounded c)\<bar> < 1 / 2 \<or>
      \<bar>y - of_int (modified_crcl_rounded c)\<bar> = 1 / 2 \<and> even (modified_crcl_rounded c)) \<and>
     (\<bar>z - of_int (crcl_using_ibw_rounded c)\<bar> < 1 / 2 \<or>
      \<bar>z - of_int (crcl_using_ibw_rounded c)\<bar> = 1 / 2 \<and> even (crcl_using_ibw_rounded c)) \<and>
     py_truediv (abw b) (lit 0.453592) = Inr abw_lb \<and>
     modified_crcl out = str_int (modified_crcl_rounded c) @ '' mL/min'' @ [CHR 0x0A] @
       ''Creatinine clearance modified for overweight patient, using adjusted body weight of '' @
       repr (py_round1 (abw b)) @ '' kg ('' @ repr (py_round1 abw_lb) @ '' lbs).'' \<and>
     original_crcl out = str_int (original_crcl_rounded c) @ '' mL/min'' @ [CHR 0x0A] @
       ''Creatinine clearance, original Cockcroft-Gault'' \<and>
     (\<forall>a. abw b = Fin a \<longrightarrow>
        (\<exists>k. (\<bar>a * 10 - of_int k\<bar> < 1 / 2 \<or> \<bar>a * 10 - of_int k\<bar> = 1 / 2 \<and> even k) \<and>
           py_round1 (abw b) = (a < 0, rnd (of_int k / 10)))) \<and>
     (\<forall>a. abw_lb = Fin a \<longrightarrow>
        (\<exists>k. (\<bar>a * 10 - of_int k\<bar> < 1 / 2 \<or> \<bar>a * 10 - of_int k\<bar> = 1 / 2 \<and> even k) \<and>
           py_round1 abw_lb = (a < 0, rnd (of_int k / 10))))"
proof -
  from calculate_crcl_Inr_D [OF assms] obtain b c abw_lb where
    b: "crcl_weights d = Inr b" and c: "crcl_values d b = Inr c"
    and l: "py_truediv (abw b) (lit 0.453592) = Inr abw_lb"
    and t: "original_crcl out = str_int (original_crcl_rounded c) @ '' mL/min'' @ [CHR 0x0A] @
       ''Creatinine clearance, original Cockcroft-Gault''"
      "modified_crcl out = str_int (modified_crcl_rounded c) @ '' mL/min'' @ [CHR 0x0A] @
       ''Creatinine clearance modified for overweight patient, using adjusted body weight of '' @
       repr (py_round1 (abw b)) @ '' kg ('' @ repr (py_round1 abw_lb) @ '' lbs).''"
    by blast
  from crcl_values_Inr_D [OF c] have
    p: "py_round (original_crcl_raw c) = Inr (original_crcl_rounded c)"
      "py_round (modified_crcl_raw c) = Inr (modified_crcl_rounded c)"
      "py_round (crcl_using_ibw_raw c) = Inr (crcl_using_ibw_rounded c)"
    by blast+
  from p(1) obtain x where x: "original_crcl_raw c = Fin x" "original_crcl_rounded c = rhe x"
    using py_round_Inr_D by blast
  from p(2) obtain y where y: "modified_crcl_raw c = Fin y" "modified_crcl_rounded c = rhe y"
    using py_round_Inr_D by blast
  from p(3) obtain z where z: "crcl_using_ibw_raw c = Fin z" "crcl_using_ibw_rounded c = rhe z"
    using py_round_Inr_D by blast
  note r = rhe_spec [of x, folded x(2)] rhe_spec [of y, folded y(2)] rhe_spec [of z, folded z(2)]
  have d: "\<forall>a. u = Fin a \<longrightarrow>
      (\<exists>k. (\<bar>a * 10 - of_int k\<bar> < 1 / 2 \<or> \<bar>a * 10 - of_int k\<bar> = 1 / 2 \<and> even k) \<and>
         py_round1 u = (a < 0, rnd (of_int k / 10)))" for u
    using py_round1_spec by blast
  show ?thesis
    by (rule exI [of _ b], rule exI [of _ c], rule exI [of _ abw_lb],
        rule exI [of _ x], rule exI [of _ y], rule exI [of _ z])
      (intro conjI b c l t x(1) y(1) z(1) r d)
qed

theorem rounding_of_results_witness:
  "(\<exists>out. calculate_crcl repr_rounded request_metric = Inr out \<and>
      original_crcl_raw request_metric_values = Fin (5908486727038707 / 70368744177664) \<and>
      original_crcl_rounded request_metric_values = 84 \<and>
      \<bar>5908486727038707 / 70368744177664 - (84 :: rat)\<bar> < 1 / 2 \<and>
      modified_crcl out = ''81 mL/min'' @ [CHR 0x0A] @
        ''Creatinine clearance modified for overweight patient, using adjusted body weight of '' @
        ''67.6 kg (148.9 lbs).'') \<and>
   (\<exists>out. calculate_crcl repr_rounded request_light = Inr out \<and>
      abw request_light_weights = Fin (- (5709411406001 / 281474976710656)) \<and>
      py_round1 (abw request_light_weights) = (True, Fin 0) \<and>
      modified_crcl out = ''0 mL/min'' @ [CHR 0x0A] @
        ''Creatinine clearance modified for overweight patient, using adjusted body weight of '' @
        ''-0.0 kg (-0.0 lbs).'') \<and>
   (\<exists>out. calculate_crcl repr_rounded request_least = Inr out \<and>
      abw request_least_weights = Fin 0 \<and>
      py_round1 (abw request_least_weights) = (False, Fin 0) \<and>
      modified_crcl out = ''0 mL/min'' @ [CHR 0x0A] @
        ''Creatinine clearance modified for overweight patient, using adjusted body weight of '' @
        ''0.0 kg (0.0 lbs).'')"
proof -
  obtain out where out: "calculate_crcl repr_rounded request_metric = Inr out"
    using output_request_metric by blast
  from rounding_of_results [OF out] obtain b c x where
    b: "crcl_weights request_metric = Inr b" and c: "crcl_values request_metric b = Inr c"
    and x: "original_crcl_raw c = Fin x"
    and r: "\<bar>x - of_int (original_crcl_rounded c)\<bar> < 1 / 2 \<or>
      \<bar>x - of_int (original_crcl_rounded c)\<bar> = 1 / 2 \<and> even (original_crcl_rounded c)"
    by blast
  have b': "b = request_metric_weights" using b by (simp add: weights_request_metric)
  have c': "c = request_metric_values" using c by (simp add: b' values_request_metric)
  have v: "original_crcl_raw request_metric_values = Fin (5908486727038707 / 70368744177664)"
    "original_crcl_rounded request_metric_values = 84"
    by (simp_all add: request_metric_values_def)
  have x': "x = 5908486727038707 / 70368744177664" using x by (simp add: c' v)
  have 1: "\<bar>5908486727038707 / 70368744177664 - (84 :: rat)\<bar> < 1 / 2"
    using r by (simp add: c' v x')
  have m: "modified_crcl out = ''81 mL/min'' @ [CHR 0x0A] @
        ''Creatinine clearance modified for overweight patient, using adjusted body weight of '' @
        ''67.6 kg (148.9 lbs).''"
    using out
    by (auto simp: output_request_metric [of repr_rounded] repr_rounded_def
        str_nat.simps digit_char_def ev)
  obtain out2 where out2: "calculate_crcl repr_rounded request_light = Inr out2"
    using output_request_light by blast
  from rounding_of_results [OF out2] obtain b2 where
    b2: "crcl_weights request_light = Inr b2"
    and s2: "\<forall>a. abw b2 = Fin a \<longrightarrow>
        (\<exists>k. (\<bar>a * 10 - of_int k\<bar> < 1 / 2 \<or> \<bar>a * 10 - of_int k\<bar> = 1 / 2 \<and> even k) \<and>
           py_round1 (abw b2) = (a < 0, rnd (of_int k / 10)))"
    by blast
  have b2': "b2 = request_light_weights" using b2 by (simp add: weights_request_light)
  have a2: "abw request_light_weights = Fin (- (5709411406001 / 281474976710656))"
    by (simp add: request_light_weights_def)
  from s2 [unfolded b2', rule_format, OF a2] have "fst (py_round1 (abw request_light_weights))"
    by auto
  then have p2: "py_round1 (abw request_light_weights) = (True, Fin 0)"
    by (simp add: a2 ev)
  have m2: "modified_crcl out2 = ''0 mL/min'' @ [CHR 0x0A] @
        ''Creatinine clearance modified for overweight patient, using adjusted body weight of '' @
        ''-0.0 kg (-0.0 lbs).''"
    using out2 by (auto simp: output_request_light [of repr_rounded] repr_rounded_def)
  obtain out3 where out3: "calculate_crcl repr_rounded request_least = Inr out3"
    using output_request_least by blast
  have a3: "abw request_least_weights = Fin 0"
    by (simp add: request_least_weights_def)
  have p3: "py_round1 (abw request_least_weights) = (False, Fin 0)"
    by (simp add: a3)
  have m3: "modified_crcl out3 = ''0 mL/min'' @ [CHR 0x0A] @
        ''Creatinine clearance modified for overweight patient, using adjusted body weight of '' @
        ''0.0 kg (0.0 lbs).''"
    using out3 by (auto simp: output_request_least [of repr_rounded] repr_rounded_def)
  from out v 1 m out2 a2 p2 m2 out3 a3 p3 m3 show ?thesis by blast
qed

text \<open>
  C9, as the claim states it: every validated input completes without an exception.
  It fails: with a weight of \<open>2 ** 1020\<close> kg the product \<open>(140 - age) * weight_in_kg\<close> is
  infinite, and \<open>round\<close> of the infinite clearance raises OverflowError.
\<close>

theorem calculation_raises_counterexample:
  "validated request_huge \<and> calculate_crcl repr_rounded request_huge = Inl OverflowError"
  using validated_request_huge output_request_huge [of repr_rounded] by (rule conjI)

text \<open>
  C9, amended: for every validated input, \<open>72 \<times> serum_creatinine\<close> is not zero and no
  division raises; the calculation completes exactly when the three clearances, before
  rounding, are finite floats; when it does not complete, the exception is OverflowError
  or ValueError (from \<open>round\<close> of an infinity or of a NaN, or from the conversion of
  \<open>140 - age\<close> to a float).
\<close>

theorem calculation_completes:
  assumes "validated d"
  shows "fmul (Fin 72) (serum_creatinine d) \<noteq> Fin 0 \<and>
    calculate_crcl repr d \<noteq> Inl ZeroDivisionError \<and>
    (\<forall>e. calculate_crcl repr d = Inl e \<longrightarrow> e = OverflowError \<or> e = ValueError) \<and>
    (\<exists>b sf. crcl_weights d = Inr b \<and>
       sf = (if sex d = ''female'' then lit 0.85 else lit 1.0) \<and>
       ((\<exists>out. calculate_crcl repr d = Inr out) \<longleftrightarrow>
        (\<exists>x y z.
           cockcroft_gault (age d) (serum_creatinine d) sf (weight_in_kg b) = Inr (Fin x) \<and>
           cockcroft_gault (age d) (serum_creatinine d) sf (abw b) = Inr (Fin y) \<and>
           cockcroft_gault (age d) (serum_creatinine d) sf (ibw b) = Inr (Fin z))))"
proof -
  have g: "gt0 (serum_creatinine d)" using assms by (simp add: validated_def)
  note nz = den_nonzero [OF g]
  obtain b where b: "crcl_weights d = Inr b" using crcl_weights_eq by blast
  define sf where "sf = (if sex d = ''female'' then lit 0.85 else lit 1.0)"
  define den where "den = fmul (Fin 72) (serum_creatinine d)"
  have err: "e = OverflowError \<or> e = ValueError" if "calculate_crcl repr d = Inl e" for e
    using that crcl_values_Inl [OF g] unfolding calculate_crcl_Inl_iff [OF b] by blast
  have nzd: "calculate_crcl repr d \<noteq> Inl ZeroDivisionError"
  proof
    assume "calculate_crcl repr d = Inl ZeroDivisionError"
    from err [OF this] show False by simp
  qed
  have cg: "cockcroft_gault (age d) (serum_creatinine d) sf w = Inr r \<longleftrightarrow>
      (\<exists>k. float_of_int (140 - age d) = Inr k \<and> r = fquot (fmul (fmul k w) sf) den)" for w r
    unfolding cockcroft_gault_Inr_iff den_def using nz by blast
  have iff: "(\<exists>out. calculate_crcl repr d = Inr out) \<longleftrightarrow>
        (\<exists>x y z.
           cockcroft_gault (age d) (serum_creatinine d) sf (weight_in_kg b) = Inr (Fin x) \<and>
           cockcroft_gault (age d) (serum_creatinine d) sf (abw b) = Inr (Fin y) \<and>
           cockcroft_gault (age d) (serum_creatinine d) sf (ibw b) = Inr (Fin z))"
    (is "?L \<longleftrightarrow> ?R")
  proof
    assume ?L
    then obtain c where c: "crcl_values d b = Inr c"
      unfolding calculate_crcl_Inr_iff [OF b] by blast
    from crcl_values_Inr_D [OF c] obtain k where
      k: "float_of_int (140 - age d) = Inr k"
      and s: "sex_factor c = sf"
      and raw: "original_crcl_raw c = fquot (fmul (fmul k (weight_in_kg b)) (sex_factor c)) den"
        "modified_crcl_raw c = fquot (fmul (fmul k (abw b)) (sex_factor c)) den"
        "crcl_using_ibw_raw c = fquot (fmul (fmul k (ibw b)) (sex_factor c)) den"
      and p: "py_round (original_crcl_raw c) = Inr (original_crcl_rounded c)"
        "py_round (modified_crcl_raw c) = Inr (modified_crcl_rounded c)"
        "py_round (crcl_using_ibw_raw c) = Inr (crcl_using_ibw_rounded c)"
      unfolding sf_def den_def by blast
    from py_round_Inr_D [OF p(1)] obtain x where x: "original_crcl_raw c = Fin x" by blast
    from py_round_Inr_D [OF p(2)] obtain y where y: "modified_crcl_raw c = Fin y" by blast
    from py_round_Inr_D [OF p(3)] obtain z where z: "crcl_using_ibw_raw c = Fin z" by blast
    have "cockcroft_gault (age d) (serum_creatinine d) sf (weight_in_kg b) = Inr (Fin x)"
      unfolding cg using k raw(1) x s by (intro exI [of _ k]) simp
    moreover have "cockcroft_gault (age d) (serum_creatinine d) sf (abw b) = Inr (Fin y)"
      unfolding cg using k raw(2) y s by (intro exI [of _ k]) simp
    moreover have "cockcroft_gault (age d) (serum_creatinine d) sf (ibw b) = Inr (Fin z)"
      unfolding cg using k raw(3) z s by (intro exI [of _ k]) simp
    ultimately show ?R by blast
  next
    assume ?R
    then obtain x y z where
      r: "cockcroft_gault (age d) (serum_creatinine d) sf (weight_in_kg b) = Inr (Fin x)"
        "cockcroft_gault (age d) (serum_creatinine d) sf (abw b) = Inr (Fin y)"
        "cockcroft_gault (age d) (serum_creatinine d) sf (ibw b) = Inr (Fin z)"
      by blast
    from r(1) obtain k where k: "float_of_int (140 - age d) = Inr k"
      and x: "fquot (fmul (fmul k (weight_in_kg b)) sf) den = Fin x"
      unfolding cg by auto
    from r(2) k have y: "fquot (fmul (fmul k (abw b)) sf) den = Fin y"
      unfolding cg by auto
    from r(3) k have z: "fquot (fmul (fmul k (ibw b)) sf) den = Fin z"
      unfolding cg by auto
    have "\<exists>c. crcl_values d b = Inr c"
      using k nz sf_def x y z unfolding den_def by (rule crcl_values_complete)
    then show ?L unfolding calculate_crcl_Inr_iff [OF b] .
  qed
  have "\<exists>b sf. crcl_weights d = Inr b \<and>
       sf = (if sex d = ''female'' then lit 0.85 else lit 1.0) \<and>
       ((\<exists>out. calculate_crcl repr d = Inr out) \<longleftrightarrow>
        (\<exists>x y z.
           cockcroft_gault (age d) (serum_creatinine d) sf (weight_in_kg b) = Inr (Fin x) \<and>
           cockcroft_gault (age d) (serum_creatinine d) sf (abw b) = Inr (Fin y) \<and>
           cockcroft_gault (age d) (serum_creatinine d) sf (ibw b) = Inr (Fin z)))"
    using b sf_def iff by (intro exI [of _ b] exI [of _ sf] conjI)
  moreover have "\<forall>e. calculate_crcl repr d = Inl e \<longrightarrow> e = OverflowError \<or> e = ValueError"
    using err by blast
  ultimately show ?thesis using nz nzd by (intro conjI)
qed

theorem calculation_completes_witness:
  "validated request_metric \<and>
   calculate_crcl repr_rounded request_metric \<noteq> Inl ZeroDivisionError \<and>
   (\<exists>out. calculate_crcl repr_rounded request_metric = Inr out) \<and>
   (\<exists>x y z.
      cockcroft_gault 45 (lit 1.1) (lit 1.0) (weight_in_kg request_metric_weights) = Inr (Fin x) \<and>
      cockcroft_gault 45 (lit 1.1) (lit 1.0) (abw request_metric_weights) = Inr (Fin y) \<and>
      cockcroft_gault 45 (lit 1.1) (lit 1.0) (ibw request_metric_weights) = Inr (Fin z))"
proof -
  note t = calculation_completes [OF validated_request_metric, of repr_rounded]
  have out: "\<exists>out. calculate_crcl repr_rounded request_metric = Inr out"
    using output_request_metric by blast
  from t obtain b sf where b: "crcl_weights request_metric = Inr b"
    and sf: "sf = (if sex request_metric = ''female'' then lit 0.85 else lit 1.0)"
    and iff: "(\<exists>out. calculate_crcl repr_rounded request_metric = Inr out) \<longleftrightarrow>
      (\<exists>x y z.
         cockcroft_gault (age request_metric) (serum_creatinine request_metric) sf
           (weight_in_kg b) = Inr (Fin x) \<and>
         cockcroft_gault (age request_metric) (serum_creatinine request_metric) sf
           (abw b) = Inr (Fin y) \<and>
         cockcroft_gault (age request_metric) (serum_creatinine request_metric) sf
           (ibw b) = Inr (Fin z))"
    by blast
  have b': "b = request_metric_weights" using b by (simp add: weights_request_metric)
  have f: "age request_metric = 45" "serum_creatinine request_metric = lit 1.1" "sf = lit 1.0"
    by (simp_all add: sf request_metric_def)
  from iff out have "\<exists>x y z.
      cockcroft_gault 45 (lit 1.1) (lit 1.0) (weight_in_kg request_metric_weights) = Inr (Fin x) \<and>
      cockcroft_gault 45 (lit 1.1) (lit 1.0) (abw request_metric_weights) = Inr (Fin y) \<and>
      cockcroft_gault 45 (lit 1.1) (lit 1.0) (ibw request_metric_weights) = Inr (Fin z)"
    unfolding b' f by blast
  with validated_request_metric t out show ?thesis by blast
qed

text \<open>
  C6, as the claim states it: for every valid input \<open>modified_crcl \<le> original_crcl\<close> when
  the weight in kg is greater than the ideal body weight. It fails for an age above 140,
  where \<open>140 - age\<close> is negative: for a man of 150 years, 100 kg and 170 cm the modified
  clearance is \<open>-10\<close> and the original one is \<open>-13\<close>.
\<close>

theorem modified_le_original_counterexample:
  "validated request_aged \<and>
   crcl_weights request_aged = Inr request_aged_weights \<and>
   crcl_values request_aged request_aged_weights = Inr request_aged_values \<and>
   fgt (weight_in_kg request_aged_weights) (ibw request_aged_weights) \<and>
   modified_crcl_rounded request_aged_values = - 10 \<and>
   original_crcl_rounded request_aged_values = - 13 \<and>
   \<not> modified_crcl_rounded request_aged_values \<le> original_crcl_rounded request_aged_values"
  using validated_request_aged weights_request_aged values_request_aged
  by (simp add: request_aged_weights_def request_aged_values_def)

text \<open>
  C6, amended: for every validated input on which the calculation completes,
  \<open>modified_crcl = original_crcl\<close> when the weight in kg is not greater than the ideal body
  weight, and \<open>modified_crcl \<le> original_crcl\<close> when it is greater and the age is at most 140.
\<close>

theorem modified_le_original:
  assumes "validated d" "crcl_weights d = Inr b" "crcl_values d b = Inr c"
  shows "(\<not> fgt (weight_in_kg b) (ibw b) \<longrightarrow>
       modified_crcl_rounded c = original_crcl_rounded c) \<and>
    (fgt (weight_in_kg b) (ibw b) \<and> age d \<le> 140 \<longrightarrow>
       modified_crcl_rounded c \<le> original_crcl_rounded c)"
proof -
  define den where "den = fmul (Fin 72) (serum_creatinine d)"
  from crcl_values_Inr_D [OF assms(3)] obtain k where
    k: "float_of_int (140 - age d) = Inr k"
    and sf: "sex_factor c = (if sex d = ''female'' then lit 0.85 else lit 1.0)"
    and o: "original_crcl_raw c = fquot (fmul (fmul k (weight_in_kg b)) (sex_factor c)) den"
    and m: "modified_crcl_raw c = fquot (fmul (fmul k (abw b)) (sex_factor c)) den"
    and po: "py_round (original_crcl_raw c) = Inr (original_crcl_rounded c)"
    and pm: "py_round (modified_crcl_raw c) = Inr (modified_crcl_rounded c)"
    unfolding den_def by blast
  have eq: "modified_crcl_rounded c = original_crcl_rounded c"
    if "\<not> fgt (weight_in_kg b) (ibw b)"
  proof -
    have "abw b = weight_in_kg b" using assms(2) that by (auto simp: crcl_weights_eq Let_def)
    then have "modified_crcl_raw c = original_crcl_raw c" by (simp only: o m)
    with po pm show ?thesis by simp
  qed
  have le: "modified_crcl_rounded c \<le> original_crcl_rounded c"
    if over: "fgt (weight_in_kg b) (ibw b)" and age: "age d \<le> 140"
  proof -
    from py_round_Inr_D [OF po] obtain x where
      x: "original_crcl_raw c = Fin x" "original_crcl_rounded c = rhe x" by blast
    from py_round_Inr_D [OF pm] obtain y where
      y: "modified_crcl_raw c = Fin y" "modified_crcl_rounded c = rhe y" by blast
    from float_of_int_nonneg [OF k] age obtain kk where kk: "k = Fin kk" "0 \<le> kk" by auto
    have fo: "fquot (fmul (fmul (Fin kk) (weight_in_kg b)) (sex_factor c)) den = Fin x"
      using o x(1) kk(1) by simp
    have fm: "fquot (fmul (fmul (Fin kk) (abw b)) (sex_factor c)) den = Fin y"
      using m y(1) kk(1) by simp
    from fo obtain w where w: "weight_in_kg b = Fin w"
      by (auto dest!: fquot_Fin_D fmul_Fin_D)
    from fm obtain a where a: "abw b = Fin a"
      by (auto dest!: fquot_Fin_D fmul_Fin_D)
    have aw: "a \<le> w" using assms(1,2) over w a by (rule abw_le_weight)
    have s: "\<forall>s. sex_factor c = Fin s \<longrightarrow> 0 \<le> s"
      unfolding sf by (auto simp: lit_0_85 lit_1_0)
    have g: "gt0 (serum_creatinine d)" using assms(1) by (simp add: validated_def)
    have b: "\<forall>b. den = Fin b \<longrightarrow> 0 < b"
      unfolding den_def using den_positive [OF g] by blast
    have "y \<le> x"
      using fm [unfolded a] fo [unfolded w] kk(2) s aw b by (rule clearance_mono)
    then show ?thesis unfolding x(2) y(2) by (rule rhe_mono)
  qed
  from eq le show ?thesis by blast
qed

theorem modified_le_original_witness:
  "validated request_metric \<and> age request_metric \<le> 140 \<and>
   fgt (weight_in_kg request_metric_weights) (ibw request_metric_weights) \<and>
   modified_crcl_rounded request_metric_values \<le> original_crcl_rounded request_metric_values \<and>
   validated request_imperial \<and>
   \<not> fgt (weight_in_kg request_imperial_weights) (ibw request_imperial_weights) \<and>
   modified_crcl_rounded request_imperial_values = original_crcl_rounded request_imperial_values"
proof -
  have 1: "fgt (weight_in_kg request_metric_weights) (ibw request_metric_weights)"
    "age request_metric \<le> 140"
    by (simp_all add: request_metric_weights_def request_metric_def)
  have 2: "\<not> fgt (weight_in_kg request_imperial_weights) (ibw request_imperial_weights)"
    by (simp add: request_imperial_weights_def)
  from modified_le_original [OF validated_request_metric weights_request_metric
      values_request_metric] 1
    modified_le_original [OF validated_request_imperial weights_request_imperial
      values_request_imperial] 2
    validated_request_metric validated_request_imperial
  show ?thesis by blast
qed

end
